theory Spec2Isabelle
  imports Main "HOL-Library.Sublist"
begin

section \<open>The builder state and its enable methods\<close>

text \<open>
  Go's \<open>error\<close> interface value: a non-nil error is a message, a nil error is \<open>None\<close>
  of \<open>err option\<close>.
\<close>

datatype err = Err string

text \<open>
  \<open>configsBuilder\<close>: the struct of both builder files, field by field. The field
  \<open>Err\<close> of the source is \<open>ErrSlot\<close> here (\<open>Err\<close> is the constructor of errors).
\<close>

record configsBuilder =
  ErrSlot :: "err option"
  http :: bool
  otlp :: bool
  postgres :: bool
  identity :: bool
  mqtt :: bool
  rabbitmq :: bool
  aws :: bool
  dynamoDB :: bool

text \<open>\<open>NewConfigsBuilder\<close> returns \<open>&configsBuilder{}\<close>: every field at its zero value.\<close>

definition NewConfigsBuilder :: configsBuilder where
  "NewConfigsBuilder =
     \<lparr>ErrSlot = None, http = False, otlp = False, postgres = False, identity = False,
      mqtt = False, rabbitmq = False, aws = False, dynamoDB = False\<rparr>"

text \<open>
  The enable methods have a pointer receiver, assign one field and return the receiver:
  the model takes the builder and returns the builder after the assignment.
\<close>

definition HTTP :: "configsBuilder \<Rightarrow> configsBuilder" where
  "HTTP b = b\<lparr>http := True\<rparr>"

definition Otlp :: "configsBuilder \<Rightarrow> configsBuilder" where
  "Otlp b = b\<lparr>otlp := True\<rparr>"

definition Postgres :: "configsBuilder \<Rightarrow> configsBuilder" where
  "Postgres b = b\<lparr>postgres := True\<rparr>"

definition Identity :: "configsBuilder \<Rightarrow> configsBuilder" where
  "Identity b = b\<lparr>identity := True\<rparr>"

definition MQTT :: "configsBuilder \<Rightarrow> configsBuilder" where
  "MQTT b = b\<lparr>mqtt := True\<rparr>"

definition RabbitMQ :: "configsBuilder \<Rightarrow> configsBuilder" where
  "RabbitMQ b = b\<lparr>rabbitmq := True\<rparr>"

definition AWS :: "configsBuilder \<Rightarrow> configsBuilder" where
  "AWS b = b\<lparr>aws := True\<rparr>"

definition DynamoDB :: "configsBuilder \<Rightarrow> configsBuilder" where
  "DynamoDB b = b\<lparr>dynamoDB := True\<rparr>"

section \<open>Reflection over the value handed to the Default Injector\<close>

text \<open>
  A struct tag is read with \<open>Tag.Lookup\<close>, which returns the value of the first
  \<open>key:"value"\<close> pair with that key: the tag is the list of its pairs in the order
  they are written.
\<close>

type_synonym StructTag = "(string \<times> string) list"

record StructField =
  Name :: string
  Tag :: StructTag

definition Lookup :: "StructTag \<Rightarrow> string \<Rightarrow> string option" where
  "Lookup tag key = map_of tag key"

text \<open>
  What \<open>reflect.ValueOf\<close> makes of the \<open>interface{}\<close> argument, as far as
  \<open>loadStructDefaults\<close> can tell values apart: the zero \<open>Value\<close> (of a nil interface, or
  the \<open>Elem\<close> of a nil pointer), a pointer to a value, a nil pointer, a struct with its
  fields in declaration order, and everything else (numbers, strings, maps, slices,
  functions, channels).
\<close>

datatype Value =
  ZeroValue
| PointerTo Value
| NilPointer
| StructOf "StructField list"
| Scalar

datatype Kind = Invalid | Ptr | Struct | OtherKind

fun Kind_of :: "Value \<Rightarrow> Kind" where
  "Kind_of ZeroValue = Invalid"
| "Kind_of (PointerTo x) = Ptr"
| "Kind_of NilPointer = Ptr"
| "Kind_of (StructOf fs) = Struct"
| "Kind_of Scalar = OtherKind"

text \<open>
  \<open>Value.Elem\<close> panics unless the kind is a pointer (or an interface, which
  \<open>ValueOf\<close> never returns); on a nil pointer it returns the zero \<open>Value\<close>.
  \<open>Value.NumField\<close> panics unless the kind is a struct, and \<open>Type.Field(i)\<close> panics when
  \<open>i\<close> is out of range. A panic is \<open>None\<close>.
\<close>

fun Elem :: "Value \<Rightarrow> Value option" where
  "Elem (PointerTo x) = Some x"
| "Elem NilPointer = Some ZeroValue"
| "Elem x = None"

fun NumField :: "Value \<Rightarrow> nat option" where
  "NumField (StructOf fs) = Some (length fs)"
| "NumField x = None"

fun Field_at :: "Value \<Rightarrow> nat \<Rightarrow> StructField option" where
  "Field_at (StructOf fs) i = (if i < length fs then Some (fs ! i) else None)"
| "Field_at x i = None"

section \<open>The key/value store\<close>

text \<open>
  Modelled from the spec: the key/value store is viper, an external collaborator whose
  code is not part of the repository. The spec describes it as the layered abstraction
  over the environment file and the live process environment, with default-value
  registration: a lookup takes the live environment first, then the file, then the
  registered default ("live environment takes precedence over file-sourced values",
  "explicit environment values always win over declared defaults").
\<close>

record Viper =
  env :: "string \<rightharpoonup> string"
  config :: "string \<rightharpoonup> string"
  defaults :: "string \<rightharpoonup> string"

definition viper_New :: Viper where
  "viper_New = \<lparr>env = Map.empty, config = Map.empty, defaults = Map.empty\<rparr>"

definition SetDefault :: "Viper \<Rightarrow> string \<Rightarrow> string \<Rightarrow> Viper" where
  "SetDefault v key val = v\<lparr>defaults := (defaults v)(key \<mapsto> val)\<rparr>"

text \<open>The value an explicit source (live environment, then file) has for a key.\<close>

definition explicit :: "Viper \<Rightarrow> string \<Rightarrow> string option" where
  "explicit v key = (case env v key of Some x \<Rightarrow> Some x | None \<Rightarrow> config v key)"

definition Get :: "Viper \<Rightarrow> string \<Rightarrow> string option" where
  "Get v key = (case explicit v key of Some x \<Rightarrow> Some x | None \<Rightarrow> defaults v key)"

section \<open>The Default Injector\<close>

text \<open>
  The body of the \<open>for\<close> loop of \<open>loadStructDefaults\<close> for one field: both \<open>continue\<close>
  branches leave the store as it is, the last line registers the default.
\<close>

definition loadField :: "Viper \<Rightarrow> StructField \<Rightarrow> Viper" where
  "loadField v field =
     (case Lookup (Tag field) ''default'' of
        None \<Rightarrow> v
      | Some defaultVal \<Rightarrow>
          if defaultVal = '''' then v
          else (case Lookup (Tag field) ''mapstructure'' of
                  None \<Rightarrow> v
                | Some envKey \<Rightarrow>
                    if envKey = '''' then v
                    else SetDefault v envKey defaultVal))"

text \<open>
  The loop \<open>for i := 0; i < val.NumField(); i++\<close>, from index \<open>i\<close> on. The result is
  \<open>None\<close> when a reflection call panics.
\<close>

function loadLoop :: "Viper \<Rightarrow> Value \<Rightarrow> nat \<Rightarrow> Viper option" where
  "loadLoop v val i =
     (case NumField val of
        None \<Rightarrow> None
      | Some n \<Rightarrow>
          if i < n then
            (case Field_at val i of
               None \<Rightarrow> None
             | Some field \<Rightarrow> loadLoop (loadField v field) val (Suc i))
          else Some v)"
  by pat_completeness auto
termination
  by (relation "measure (\<lambda>(v, val, i). the (NumField val) - i)") auto

declare loadLoop.simps [simp del]

text \<open>
  \<open>loadStructDefaults\<close>: the receiver is not read, so it is not an argument. The store
  is mutated through its pointer; the model returns the store after the call, or
  \<open>None\<close> for a panic.
\<close>

definition loadStructDefaults :: "Viper \<Rightarrow> Value \<Rightarrow> Viper option" where
  "loadStructDefaults v structPtr =
     (case (if Kind_of structPtr = Ptr then Elem structPtr else Some structPtr) of
        None \<Rightarrow> None
      | Some val \<Rightarrow>
          if Kind_of val \<noteq> Struct then Some v
          else loadLoop v val 0)"

section \<open>Deserialization\<close>

text \<open>
  The domains of the bundle: the two mandatory schemas (base application and
  observability) and the seven optional ones. Their struct types live in the external
  \<open>configs\<close> package.
\<close>

datatype Domain =
  DApp | DOTLP | DHTTP | DPostgres | DIdentity | DMQTT | DRabbitMQ | DAWS | DDynamoDB

datatype GoValue = StringVal string | IntVal int | BoolVal bool

text \<open>
  A schema instance: one entry per field, in declaration order; \<open>None\<close> is a field still
  at its zero value.
\<close>

type_synonym Instance = "GoValue option list"

definition zeroInstance :: "StructField list \<Rightarrow> Instance" where
  "zeroInstance fs = map (\<lambda>f. None) fs"

text \<open>
  Modelled from the spec: \<open>Unmarshal\<close> is viper's, an external collaborator; the spec
  describes it as "full-struct deserialization by tag-directed field mapping", failing on
  "a required key absent with no default, or a value that fails type coercion for its
  target field". Each field with a mapping key is decoded from what the store holds for
  that key. What a field's type makes of a text, and of an absent key, is the decoder
  \<open>dec\<close>, a parameter: it fails, sets the field, or leaves it at its zero value.
\<close>

type_synonym Decoder = "StructField \<Rightarrow> string option \<Rightarrow> err + GoValue option"

definition decodeField :: "Decoder \<Rightarrow> Viper \<Rightarrow> StructField \<Rightarrow> err + GoValue option" where
  "decodeField dec v field =
     (case Lookup (Tag field) ''mapstructure'' of
        None \<Rightarrow> Inr None
      | Some key \<Rightarrow> if key = '''' then Inr None else dec field (Get v key))"

fun Unmarshal :: "Decoder \<Rightarrow> Viper \<Rightarrow> StructField list \<Rightarrow> err + Instance" where
  "Unmarshal dec v [] = Inr []"
| "Unmarshal dec v (field # rest) =
     (case decodeField dec v field of
        Inl e \<Rightarrow> Inl e
      | Inr x \<Rightarrow>
          (case Unmarshal dec v rest of
             Inl e \<Rightarrow> Inl e
           | Inr xs \<Rightarrow> Inr (x # xs)))"

section \<open>The bundle and the world Build runs in\<close>

type_synonym Logger = string

text \<open>
  \<open>configs.Configs\<close>, with the fields the builder assigns. Pointer fields are options
  (\<open>None\<close> is nil); \<open>Custom\<close> is the store, shared by reference with the builder during
  construction, so every registration of a default is written into this field.
\<close>

record Configs =
  AppConfigs :: "Instance option"
  OTLPConfigs :: "Instance option"
  Custom :: Viper
  Logger :: "Logger option"
  HTTPConfigs :: "Instance option"
  PostgresConfigs :: "Instance option"
  IdentityConfigs :: "Instance option"
  MQTTConfigs :: "Instance option"
  RabbitMQConfigs :: "Instance option"
  AWSConfigs :: "Instance option"
  DynamoDBConfigs :: "Instance option"

text \<open>
  Modelled from the spec: the observability installers are external collaborators with
  the contract \<open>Install(bundle) -> (loggerHandle, error)\<close>. A successful install hands
  back the active logger; a failed one hands back an error together with whatever
  handle the installer chose, possibly nil.
\<close>

datatype InstallResult = Installed Logger | InstallFailed "Logger option" err

text \<open>
  \<open>logging.NewDefaultLogger\<close> of the earlier builder returns a logger as an interface
  value, which the builder asserts to be a \<open>*zap.Logger\<close>: the assertion panics on
  any other value.
\<close>

datatype LoggerValue = ZapLogger Logger | OtherLogger

text \<open>
  Everything outside the repository that \<open>Build\<close> reads or calls: the process environment,
  \<open>configs.NewEnvironment(...).EnvFile()\<close>, the content of the environment file as
  \<open>ReadInConfig\<close> parses it (or its error), the struct types of the \<open>configs\<close> package,
  the decoder of field values, and the three installers. For the earlier builder of
  \<open>src/configs_builder.go\<close>: \<open>logging.NewDefaultLogger\<close>, and what \<open>Unmarshal\<close> returns when
  it is handed the field of a domain in a bundle that holds no instance of it.
\<close>

record World =
  Environ :: "string \<rightharpoonup> string"
  EnvFile :: "string \<Rightarrow> string"
  ReadConfigFile :: "string \<Rightarrow> err + (string \<rightharpoonup> string)"
  Schemas :: "Domain \<Rightarrow> StructField list"
  Decode :: Decoder
  OtlpLoggingInstall :: "Configs \<Rightarrow> InstallResult"
  OtlpTracingInstall :: "Configs \<Rightarrow> err option"
  NoopLoggingInstall :: "Configs \<Rightarrow> InstallResult"
  NewDefaultLogger :: "Configs \<Rightarrow> err + LoggerValue"
  UnmarshalField :: "Viper \<Rightarrow> Domain \<Rightarrow> err option"

text \<open>\<open>os.Getenv\<close> returns the empty string for a variable that is not set.\<close>

definition os_Getenv :: "World \<Rightarrow> string \<Rightarrow> string" where
  "os_Getenv w key = (case Environ w key of None \<Rightarrow> '''' | Some x \<Rightarrow> x)"

section \<open>Build\<close>

text \<open>
  The calls \<open>Build\<close> makes to its collaborators, in program order, each with the error it
  returned where it can return one. \<open>LoggerError l msg e\<close> is \<open>l.Error(msg, zap.Error(e))\<close>;
  \<open>DefaultLogger\<close> is the call of \<open>logging.NewDefaultLogger\<close> in the earlier \<open>Build\<close>.
\<close>

datatype Event =
  ReadInConfig "err option"
| LoadDefaults Domain
| UnmarshalInto Domain "err option"
| InstallOtlpLogging "err option"
| InstallOtlpTracing "err option"
| InstallNoopLogging "err option"
| DefaultLogger "err option"
| LoggerError Logger string err

text \<open>
  How a helper of \<open>Build\<close> ends: it returns a value with a nil error, it returns a
  non-nil error, or it panics. Each carries the calls made so far.
\<close>

datatype 'a Flow = Next 'a "Event list" | Fail err "Event list" | Panic "Event list"

text \<open>\<open>x, err := f(); if err != nil { return nil, err }; g(x)\<close>\<close>

fun andThen :: "'a Flow \<Rightarrow> ('a \<Rightarrow> Event list \<Rightarrow> 'b Flow) \<Rightarrow> 'b Flow" where
  "andThen (Next x tr) g = g x tr"
| "andThen (Fail e tr) g = Fail e tr"
| "andThen (Panic tr) g = Panic tr"

text \<open>
  \<open>setupViper\<close>: \<open>AutomaticEnv\<close> makes the live environment the first layer of the new
  store, \<open>ReadInConfig\<close> reads the selected file into the second one.
\<close>

definition setupViper :: "World \<Rightarrow> Event list \<Rightarrow> Viper Flow" where
  "setupViper w tr =
     (let file = EnvFile w (os_Getenv w ''GO_ENV'');
          v = viper_New\<lparr>env := Environ w\<rparr>
      in case ReadConfigFile w file of
           Inl e \<Rightarrow> Fail e (tr @ [ReadInConfig (Some e)])
         | Inr kv \<Rightarrow> Next (v\<lparr>config := kv\<rparr>) (tr @ [ReadInConfig None]))"

text \<open>
  The pair of lines \<open>b.loadStructDefaults(v, x); err = v.Unmarshal(x)\<close> on a fresh
  instance \<open>x = &T{}\<close> of the schema of domain \<open>d\<close>: the store after the registration and
  the filled instance, or the error of \<open>Unmarshal\<close>.
\<close>

definition fill :: "World \<Rightarrow> Domain \<Rightarrow> Viper \<Rightarrow> Event list \<Rightarrow> (Viper \<times> Instance) Flow" where
  "fill w d v tr =
     (case loadStructDefaults v (PointerTo (StructOf (Schemas w d))) of
        None \<Rightarrow> Panic (tr @ [LoadDefaults d])
      | Some v' \<Rightarrow>
          (case Unmarshal (Decode w) v' (Schemas w d) of
             Inl e \<Rightarrow> Fail e (tr @ [LoadDefaults d, UnmarshalInto d (Some e)])
           | Inr inst \<Rightarrow> Next (v', inst) (tr @ [LoadDefaults d, UnmarshalInto d None])))"

definition newConfigs :: "World \<Rightarrow> Event list \<Rightarrow> Configs Flow" where
  "newConfigs w tr =
     andThen (setupViper w tr) (\<lambda>v tr.
     andThen (fill w DApp v tr) (\<lambda>(v, appConfigs) tr.
     andThen (fill w DOTLP v tr) (\<lambda>(v, otlpConfigs) tr.
       Next \<lparr>AppConfigs = Some appConfigs, OTLPConfigs = Some otlpConfigs, Custom = v,
             Logger = None, HTTPConfigs = None, PostgresConfigs = None,
             IdentityConfigs = None, MQTTConfigs = None, RabbitMQConfigs = None,
             AWSConfigs = None, DynamoDBConfigs = None\<rparr> tr)))"

text \<open>
  \<open>cfgs.Logger.Error(msg, zap.Error(err)); return err\<close>: a method call on a nil logger
  panics.
\<close>

definition logAndFail :: "Logger option \<Rightarrow> string \<Rightarrow> err \<Rightarrow> Event list \<Rightarrow> 'a Flow" where
  "logAndFail logger msg e tr =
     (case logger of
        None \<Rightarrow> Panic tr
      | Some l \<Rightarrow> Fail e (tr @ [LoggerError l msg e]))"

text \<open>
  \<open>cfgs.Logger, err = Install(cfgs)\<close> assigns the returned handle to the bundle before
  the error is tested, so a failed install is logged through the handle it returned.
\<close>

definition installLogger ::
  "InstallResult \<Rightarrow> (err option \<Rightarrow> Event) \<Rightarrow> string \<Rightarrow> Configs \<Rightarrow> Event list \<Rightarrow> Configs Flow" where
  "installLogger r ev msg cfgs tr =
     (case r of
        Installed l \<Rightarrow> Next (cfgs\<lparr>Logger := Some l\<rparr>) (tr @ [ev None])
      | InstallFailed l e \<Rightarrow> logAndFail (Logger (cfgs\<lparr>Logger := l\<rparr>)) msg e (tr @ [ev (Some e)]))"

definition setupObservability :: "World \<Rightarrow> configsBuilder \<Rightarrow> Configs \<Rightarrow> Event list \<Rightarrow> Configs Flow" where
  "setupObservability w b cfgs tr =
     (if otlp b then
        andThen (installLogger (OtlpLoggingInstall w cfgs) InstallOtlpLogging
                   ''failed to install OTLP logger'' cfgs tr) (\<lambda>cfgs tr.
          (case OtlpTracingInstall w cfgs of
             Some e \<Rightarrow> logAndFail (Logger cfgs) ''failed to install OTLP tracing'' e
                         (tr @ [InstallOtlpTracing (Some e)])
           | None \<Rightarrow> Next cfgs (tr @ [InstallOtlpTracing None])))
      else
        installLogger (NoopLoggingInstall w cfgs) InstallNoopLogging
          ''failed to install Noop logger'' cfgs tr)"

text \<open>
  The bundle field of each domain, and the message its block logs when \<open>Unmarshal\<close>
  fails. The base application schema has no block: its error is returned without a log
  entry, and its message here is empty. The message of the observability schema is the
  one of the earlier \<open>Build\<close>, the only one to log it.
\<close>

fun attach :: "Domain \<Rightarrow> Instance option \<Rightarrow> Configs \<Rightarrow> Configs" where
  "attach DApp x cfgs = cfgs\<lparr>AppConfigs := x\<rparr>"
| "attach DOTLP x cfgs = cfgs\<lparr>OTLPConfigs := x\<rparr>"
| "attach DHTTP x cfgs = cfgs\<lparr>HTTPConfigs := x\<rparr>"
| "attach DPostgres x cfgs = cfgs\<lparr>PostgresConfigs := x\<rparr>"
| "attach DIdentity x cfgs = cfgs\<lparr>IdentityConfigs := x\<rparr>"
| "attach DMQTT x cfgs = cfgs\<lparr>MQTTConfigs := x\<rparr>"
| "attach DRabbitMQ x cfgs = cfgs\<lparr>RabbitMQConfigs := x\<rparr>"
| "attach DAWS x cfgs = cfgs\<lparr>AWSConfigs := x\<rparr>"
| "attach DDynamoDB x cfgs = cfgs\<lparr>DynamoDBConfigs := x\<rparr>"

fun message :: "Domain \<Rightarrow> string" where
  "message DApp = ''''"
| "message DOTLP = ''failed to unmarshal OTLP configs''"
| "message DHTTP = ''failed to unmarshal HTTP configs''"
| "message DPostgres = ''failed to unmarshal Postgres configs''"
| "message DIdentity = ''failed to unmarshal Identity configs''"
| "message DMQTT = ''failed to unmarshal MQTT configs''"
| "message DRabbitMQ = ''failed to unmarshal RabbitMQ configs''"
| "message DAWS = ''failed to unmarshal AWS configs''"
| "message DDynamoDB = ''failed to unmarshal Dynamo configs''"

text \<open>
  One block of \<open>Build\<close>, for the optional domain \<open>d\<close> with bundle field \<open>X\<close>:
  \<open>cfgs.X = &configs.X{}\<close>, then the registration of the defaults in \<open>cfgs.Custom\<close>, then
  \<open>Unmarshal\<close> into \<open>cfgs.X\<close>, with the error logged and returned.
\<close>

definition loadDomain :: "World \<Rightarrow> Domain \<Rightarrow> Configs \<Rightarrow> Event list \<Rightarrow> Configs Flow" where
  "loadDomain w d cfgs tr =
     (let cfgs1 = attach d (Some (zeroInstance (Schemas w d))) cfgs
      in case fill w d (Custom cfgs1) tr of
           Next (v, inst) tr' \<Rightarrow> Next (attach d (Some inst) (cfgs1\<lparr>Custom := v\<rparr>)) tr'
         | Fail e tr' \<Rightarrow> logAndFail (Logger cfgs1) (message d) e tr'
         | Panic tr' \<Rightarrow> Panic tr')"

text \<open>What \<open>Build\<close> hands to its caller: the pair \<open>(*configs.Configs, error)\<close>, or a panic.\<close>

datatype Result = Returned "Configs option" "err option" | Panicked

record Run =
  builder :: configsBuilder
  events :: "Event list"
  outcome :: Result

definition Build :: "World \<Rightarrow> configsBuilder \<Rightarrow> Run" where
  "Build w b =
     (let flow =
        andThen (newConfigs w []) (\<lambda>cfgs tr.
        andThen (setupObservability w b cfgs tr) (\<lambda>cfgs tr.
        andThen (if http b then loadDomain w DHTTP cfgs tr else Next cfgs tr) (\<lambda>cfgs tr.
        andThen (if postgres b then loadDomain w DPostgres cfgs tr else Next cfgs tr) (\<lambda>cfgs tr.
        andThen (if identity b then loadDomain w DIdentity cfgs tr else Next cfgs tr) (\<lambda>cfgs tr.
        andThen (if mqtt b then loadDomain w DMQTT cfgs tr else Next cfgs tr) (\<lambda>cfgs tr.
        andThen (if rabbitmq b then loadDomain w DRabbitMQ cfgs tr else Next cfgs tr) (\<lambda>cfgs tr.
        andThen (if aws b then loadDomain w DAWS cfgs tr else Next cfgs tr) (\<lambda>cfgs tr.
        andThen (if dynamoDB b then loadDomain w DDynamoDB cfgs tr else Next cfgs tr) (\<lambda>cfgs tr.
          Next cfgs tr)))))))))
      in case flow of
           Next cfgs tr \<Rightarrow> \<lparr>builder = b, events = tr, outcome = Returned (Some cfgs) None\<rparr>
         | Fail e tr \<Rightarrow> \<lparr>builder = b, events = tr, outcome = Returned None (Some e)\<rparr>
         | Panic tr \<Rightarrow> \<lparr>builder = b, events = tr, outcome = Panicked\<rparr>)"

section \<open>The earlier Build\<close>

text \<open>
  \<open>Build\<close> of \<open>src/configs_builder.go\<close>. It sets up the store with the statements of
  \<open>setupViper\<close>, builds the bundle as \<open>configs.Configs{Custom: v}\<close> and hands the fields
  of the bundle themselves to \<open>Unmarshal\<close>: it registers no default and assigns no
  field but the logger. Its optional blocks include the observability schema, after HTTP.
\<close>

definition unmarshalField :: "World \<Rightarrow> Viper \<Rightarrow> Domain \<Rightarrow> Event list \<Rightarrow> unit Flow" where
  "unmarshalField w v d tr =
     (case UnmarshalField w v d of
        None \<Rightarrow> Next () (tr @ [UnmarshalInto d None])
      | Some e \<Rightarrow> Fail e (tr @ [UnmarshalInto d (Some e)]))"

text \<open>
  \<open>logger, err := logging.NewDefaultLogger(&cfgs)\<close>, the return of its error, and
  \<open>cfgs.Logger = logger.(*zap.Logger)\<close>.
\<close>

definition newDefaultLogger :: "World \<Rightarrow> Configs \<Rightarrow> Event list \<Rightarrow> (Logger \<times> Configs) Flow" where
  "newDefaultLogger w cfgs tr =
     (case NewDefaultLogger w cfgs of
        Inl e \<Rightarrow> Fail e (tr @ [DefaultLogger (Some e)])
      | Inr OtherLogger \<Rightarrow> Panic (tr @ [DefaultLogger None])
      | Inr (ZapLogger l) \<Rightarrow> Next (l, cfgs\<lparr>Logger := Some l\<rparr>) (tr @ [DefaultLogger None]))"

text \<open>
  One optional block: \<open>err = v.Unmarshal(cfgs.X)\<close>, with the error logged through
  \<open>logger\<close> and returned.
\<close>

definition legacyBlock :: "World \<Rightarrow> Viper \<Rightarrow> Logger \<Rightarrow> Domain \<Rightarrow> Event list \<Rightarrow> unit Flow" where
  "legacyBlock w v logger d tr =
     (case UnmarshalField w v d of
        None \<Rightarrow> Next () (tr @ [UnmarshalInto d None])
      | Some e \<Rightarrow> Fail e (tr @ [UnmarshalInto d (Some e), LoggerError logger (message d) e]))"

definition Build_legacy :: "World \<Rightarrow> configsBuilder \<Rightarrow> Run" where
  "Build_legacy w b =
     (let flow =
        andThen (setupViper w []) (\<lambda>v tr.
        andThen (unmarshalField w v DApp tr) (\<lambda>u tr.
        andThen (newDefaultLogger w
                   \<lparr>AppConfigs = None, OTLPConfigs = None, Custom = v, Logger = None,
                    HTTPConfigs = None, PostgresConfigs = None, IdentityConfigs = None,
                    MQTTConfigs = None, RabbitMQConfigs = None, AWSConfigs = None,
                    DynamoDBConfigs = None\<rparr> tr) (\<lambda>(logger, cfgs) tr.
        andThen (if http b then legacyBlock w v logger DHTTP tr else Next () tr) (\<lambda>u tr.
        andThen (if otlp b then legacyBlock w v logger DOTLP tr else Next () tr) (\<lambda>u tr.
        andThen (if postgres b then legacyBlock w v logger DPostgres tr else Next () tr) (\<lambda>u tr.
        andThen (if identity b then legacyBlock w v logger DIdentity tr else Next () tr) (\<lambda>u tr.
        andThen (if mqtt b then legacyBlock w v logger DMQTT tr else Next () tr) (\<lambda>u tr.
        andThen (if rabbitmq b then legacyBlock w v logger DRabbitMQ tr else Next () tr) (\<lambda>u tr.
        andThen (if aws b then legacyBlock w v logger DAWS tr else Next () tr) (\<lambda>u tr.
        andThen (if dynamoDB b then legacyBlock w v logger DDynamoDB tr else Next () tr) (\<lambda>u tr.
          Next cfgs tr)))))))))))
      in case flow of
           Next cfgs tr \<Rightarrow> \<lparr>builder = b, events = tr, outcome = Returned (Some cfgs) None\<rparr>
         | Fail e tr \<Rightarrow> \<lparr>builder = b, events = tr, outcome = Returned None (Some e)\<rparr>
         | Panic tr \<Rightarrow> \<lparr>builder = b, events = tr, outcome = Panicked\<rparr>)"

section \<open>Sequences of builder operations\<close>

text \<open>
  The public operations of the builder, with \<open>Build\<close> in both of its versions, and a
  caller that runs a sequence of them.
\<close>

datatype Op =
  CallHTTP | CallOtlp | CallPostgres | CallIdentity | CallMQTT | CallRabbitMQ | CallAWS
| CallDynamoDB | CallBuild World | CallBuild_legacy World

fun apply_op :: "Op \<Rightarrow> configsBuilder \<Rightarrow> configsBuilder" where
  "apply_op CallHTTP b = HTTP b"
| "apply_op CallOtlp b = Otlp b"
| "apply_op CallPostgres b = Postgres b"
| "apply_op CallIdentity b = Identity b"
| "apply_op CallMQTT b = MQTT b"
| "apply_op CallRabbitMQ b = RabbitMQ b"
| "apply_op CallAWS b = AWS b"
| "apply_op CallDynamoDB b = DynamoDB b"
| "apply_op (CallBuild w) b = builder (Build w b)"
| "apply_op (CallBuild_legacy w) b = builder (Build_legacy w b)"

definition run_ops :: "Op list \<Rightarrow> configsBuilder \<Rightarrow> configsBuilder" where
  "run_ops ops b = fold apply_op ops b"

section \<open>Notions of the specification\<close>

text \<open>
  What a field declares for the Default Injector, in the words of the specification: a
  mapping key and a default annotation, both present and both non-empty.
\<close>

definition declares :: "StructField \<Rightarrow> (string \<times> string) option" where
  "declares field =
     (case (Lookup (Tag field) ''mapstructure'', Lookup (Tag field) ''default'') of
        (Some key, Some val) \<Rightarrow> if key = '''' \<or> val = '''' then None else Some (key, val)
      | _ \<Rightarrow> None)"

text \<open>The pairs a schema declares, in declaration order, and their registration in a store.\<close>

definition registered :: "StructField list \<Rightarrow> (string \<times> string) list" where
  "registered fs = List.map_filter declares fs"

definition register :: "(string \<times> string) list \<Rightarrow> Viper \<Rightarrow> Viper" where
  "register kds v = fold (\<lambda>(key, val) v. SetDefault v key val) kds v"

text \<open>
  The fixed processing order of the optional domains, and the flag of each domain; the
  base application schema has none.
\<close>

definition optionalOrder :: "Domain list" where
  "optionalOrder = [DHTTP, DPostgres, DIdentity, DMQTT, DRabbitMQ, DAWS, DDynamoDB]"

fun enabled :: "configsBuilder \<Rightarrow> Domain \<Rightarrow> bool" where
  "enabled b DApp = True"
| "enabled b DOTLP = otlp b"
| "enabled b DHTTP = http b"
| "enabled b DPostgres = postgres b"
| "enabled b DIdentity = identity b"
| "enabled b DMQTT = mqtt b"
| "enabled b DRabbitMQ = rabbitmq b"
| "enabled b DAWS = aws b"
| "enabled b DDynamoDB = dynamoDB b"

fun bundleField :: "Domain \<Rightarrow> Configs \<Rightarrow> Instance option" where
  "bundleField DApp cfgs = AppConfigs cfgs"
| "bundleField DOTLP cfgs = OTLPConfigs cfgs"
| "bundleField DHTTP cfgs = HTTPConfigs cfgs"
| "bundleField DPostgres cfgs = PostgresConfigs cfgs"
| "bundleField DIdentity cfgs = IdentityConfigs cfgs"
| "bundleField DMQTT cfgs = MQTTConfigs cfgs"
| "bundleField DRabbitMQ cfgs = RabbitMQConfigs cfgs"
| "bundleField DAWS cfgs = AWSConfigs cfgs"
| "bundleField DDynamoDB cfgs = DynamoDBConfigs cfgs"

text \<open>
  The steps of a run: the calls to the collaborators without their results; a log entry
  is no step. \<open>plan b\<close> is the sequence of steps the specification prescribes for the
  flags of \<open>b\<close>: base and observability configuration, the installation of logging, then
  the enabled optional domains in the fixed order.
\<close>

datatype Step =
  SReadInConfig | SLoadDefaults Domain | SUnmarshal Domain
| SInstallOtlpLogging | SInstallOtlpTracing | SInstallNoopLogging | SNewDefaultLogger

fun step_of :: "Event \<Rightarrow> Step list" where
  "step_of (ReadInConfig r) = [SReadInConfig]"
| "step_of (LoadDefaults d) = [SLoadDefaults d]"
| "step_of (UnmarshalInto d r) = [SUnmarshal d]"
| "step_of (InstallOtlpLogging r) = [SInstallOtlpLogging]"
| "step_of (InstallOtlpTracing r) = [SInstallOtlpTracing]"
| "step_of (InstallNoopLogging r) = [SInstallNoopLogging]"
| "step_of (DefaultLogger r) = [SNewDefaultLogger]"
| "step_of (LoggerError l msg e) = []"

definition steps :: "Event list \<Rightarrow> Step list" where
  "steps tr = concat (map step_of tr)"

definition domainSteps :: "configsBuilder \<Rightarrow> Domain list \<Rightarrow> Step list" where
  "domainSteps b ds = concat (map (\<lambda>d. [SLoadDefaults d, SUnmarshal d]) (filter (enabled b) ds))"

definition observabilitySteps :: "configsBuilder \<Rightarrow> Step list" where
  "observabilitySteps b =
     (if otlp b then [SInstallOtlpLogging, SInstallOtlpTracing] else [SInstallNoopLogging])"

definition plan :: "configsBuilder \<Rightarrow> Step list" where
  "plan b =
     [SReadInConfig, SLoadDefaults DApp, SUnmarshal DApp, SLoadDefaults DOTLP, SUnmarshal DOTLP]
     @ observabilitySteps b @ domainSteps b optionalOrder"

fun is_log :: "Event \<Rightarrow> bool" where
  "is_log (LoggerError l msg e) = True"
| "is_log ev = False"

section \<open>Auxiliary definitions for the proofs\<close>

text \<open>
  The seven blocks of \<open>Build\<close> as one recursion over the list of their domains, the last
  \<open>case\<close> of \<open>Build\<close>, and the body of \<open>Build\<close> in terms of both.
\<close>

fun loadDomains :: "World \<Rightarrow> configsBuilder \<Rightarrow> Domain list \<Rightarrow> Configs \<Rightarrow> Event list \<Rightarrow> Configs Flow" where
  "loadDomains w b [] = (\<lambda>cfgs tr. Next cfgs tr)"
| "loadDomains w b (d # ds) = (\<lambda>cfgs tr.
     andThen (if enabled b d then loadDomain w d cfgs tr else Next cfgs tr) (loadDomains w b ds))"

definition finish :: "configsBuilder \<Rightarrow> Configs Flow \<Rightarrow> Run" where
  "finish b flow =
     (case flow of
        Next cfgs tr \<Rightarrow> \<lparr>builder = b, events = tr, outcome = Returned (Some cfgs) None\<rparr>
      | Fail e tr \<Rightarrow> \<lparr>builder = b, events = tr, outcome = Returned None (Some e)\<rparr>
      | Panic tr \<Rightarrow> \<lparr>builder = b, events = tr, outcome = Panicked\<rparr>)"

definition chain :: "World \<Rightarrow> configsBuilder \<Rightarrow> Configs Flow" where
  "chain w b =
     andThen (newConfigs w []) (\<lambda>cfgs tr.
     andThen (setupObservability w b cfgs tr) (loadDomains w b optionalOrder))"

text \<open>The same for the earlier \<open>Build\<close>.\<close>

definition legacyOrder :: "Domain list" where
  "legacyOrder = [DHTTP, DOTLP, DPostgres, DIdentity, DMQTT, DRabbitMQ, DAWS, DDynamoDB]"

fun legacyDomains ::
  "World \<Rightarrow> configsBuilder \<Rightarrow> Viper \<Rightarrow> Logger \<Rightarrow> Configs \<Rightarrow> Domain list \<Rightarrow> Event list \<Rightarrow> Configs Flow" where
  "legacyDomains w b v logger cfgs [] = (\<lambda>tr. Next cfgs tr)"
| "legacyDomains w b v logger cfgs (d # ds) = (\<lambda>tr.
     andThen (if enabled b d then legacyBlock w v logger d tr else Next () tr)
       (\<lambda>u. legacyDomains w b v logger cfgs ds))"

definition legacyChain :: "World \<Rightarrow> configsBuilder \<Rightarrow> Configs Flow" where
  "legacyChain w b =
     andThen (setupViper w []) (\<lambda>v tr.
     andThen (unmarshalField w v DApp tr) (\<lambda>u tr.
     andThen (newDefaultLogger w
                \<lparr>AppConfigs = None, OTLPConfigs = None, Custom = v, Logger = None,
                 HTTPConfigs = None, PostgresConfigs = None, IdentityConfigs = None,
                 MQTTConfigs = None, RabbitMQConfigs = None, AWSConfigs = None,
                 DynamoDBConfigs = None\<rparr> tr) (\<lambda>(logger, cfgs) tr.
       legacyDomains w b v logger cfgs legacyOrder tr)))"

definition legacySteps :: "configsBuilder \<Rightarrow> Domain list \<Rightarrow> Step list" where
  "legacySteps b ds = map SUnmarshal (filter (enabled b) ds)"

text \<open>
  The invariant of a helper that starts with the calls \<open>tr0\<close> and has the steps \<open>P\<close>
  to make: when it returns normally it has made exactly these steps and no call has
  failed; when it returns an error, the failed call is the first one that failed and is
  followed by log entries only; when it panics, the last call is the installation of a
  logger.
\<close>

fun error_of :: "Event \<Rightarrow> err option" where
  "error_of (ReadInConfig r) = r"
| "error_of (LoadDefaults d) = None"
| "error_of (UnmarshalInto d r) = r"
| "error_of (InstallOtlpLogging r) = r"
| "error_of (InstallOtlpTracing r) = r"
| "error_of (InstallNoopLogging r) = r"
| "error_of (DefaultLogger r) = r"
| "error_of (LoggerError l msg e) = None"

fun is_install :: "Event \<Rightarrow> bool" where
  "is_install (InstallOtlpLogging r) = True"
| "is_install (InstallNoopLogging r) = True"
| "is_install (DefaultLogger r) = True"
| "is_install ev = False"

definition clean :: "Event list \<Rightarrow> bool" where
  "clean tr = list_all (\<lambda>ev. error_of ev = None \<and> \<not> is_log ev) tr"

definition traced :: "Event list \<Rightarrow> Step list \<Rightarrow> 'a Flow \<Rightarrow> bool" where
  "traced tr0 P flow =
     (case flow of
        Next x tr \<Rightarrow> \<exists>new. tr = tr0 @ new \<and> clean new \<and> steps new = P
      | Fail e tr \<Rightarrow> \<exists>new ev logs. tr = tr0 @ new @ ev # logs \<and> clean new \<and>
                       error_of ev = Some e \<and> list_all is_log logs \<and>
                       prefix (steps (new @ [ev])) P
      | Panic tr \<Rightarrow> \<exists>new ev. tr = tr0 @ new @ [ev] \<and> clean new \<and> is_install ev \<and>
                       prefix (steps (new @ [ev])) P)"

section \<open>Concrete inputs\<close>

text \<open>
  A schema whose two fields share one mapping key, with different defaults, and a
  decoder that takes every text as a string and leaves a field without a value alone.
\<close>

definition sharedKeySchema :: "StructField list" where
  "sharedKeySchema =
     [\<lparr>Name = ''Host'', Tag = [(''mapstructure'', ''ADDR''), (''default'', ''localhost'')]\<rparr>,
      \<lparr>Name = ''Peer'', Tag = [(''mapstructure'', ''ADDR''), (''default'', ''0.0.0.0'')]\<rparr>]"

definition textDecoder :: Decoder where
  "textDecoder field txt = (case txt of None \<Rightarrow> Inr None | Some s \<Rightarrow> Inr (Some (StringVal s)))"

text \<open>
  The scenario of the specification: the file of the development environment declares
  \<open>HTTP_HOST=localhost\<close> only, the HTTP schema declares the default \<open>8080\<close> for
  \<open>HTTP_PORT\<close>, the Postgres schema requires \<open>SQL_DB_HOST\<close>; every mapped key is
  required, and the installers succeed. For the earlier \<open>Build\<close>, the default logger is
  a \<open>*zap.Logger\<close> and \<open>Unmarshal\<close> fails on the Postgres field only.
\<close>

definition requiredText :: Decoder where
  "requiredText field txt =
     (case txt of
        None \<Rightarrow> Inl (Err (''missing '' @ Name field))
      | Some s \<Rightarrow> Inr (Some (StringVal s)))"

fun demoSchemas :: "Domain \<Rightarrow> StructField list" where
  "demoSchemas DHTTP =
     [\<lparr>Name = ''Host'', Tag = [(''mapstructure'', ''HTTP_HOST'')]\<rparr>,
      \<lparr>Name = ''Port'', Tag = [(''mapstructure'', ''HTTP_PORT''), (''default'', ''8080'')]\<rparr>]"
| "demoSchemas DPostgres =
     [\<lparr>Name = ''Host'', Tag = [(''mapstructure'', ''SQL_DB_HOST'')]\<rparr>]"
| "demoSchemas d = []"

definition demoWorld :: World where
  "demoWorld =
     \<lparr>Environ = [''GO_ENV'' \<mapsto> ''development''],
      EnvFile = (\<lambda>name. ''.env.'' @ name),
      ReadConfigFile = (\<lambda>file. if file = ''.env.development''
                                then Inr [''HTTP_HOST'' \<mapsto> ''localhost'']
                                else Inl (Err ''no such file'')),
      Schemas = demoSchemas,
      Decode = requiredText,
      OtlpLoggingInstall = (\<lambda>cfgs. Installed ''otlp''),
      OtlpTracingInstall = (\<lambda>cfgs. None),
      NoopLoggingInstall = (\<lambda>cfgs. Installed ''noop''),
      NewDefaultLogger = (\<lambda>cfgs. Inr (ZapLogger ''default'')),
      UnmarshalField = (\<lambda>v d. if d = DPostgres
                                then Some (Err ''cannot decode Postgres configs'')
                                else None)\<rparr>"

text \<open>The same world with a no-op installer that fails and hands back a nil logger.\<close>

definition nilLoggerWorld :: World where
  "nilLoggerWorld =
     demoWorld\<lparr>NoopLoggingInstall := (\<lambda>cfgs. InstallFailed None (Err ''no logger''))\<rparr>"

text \<open>A store whose live environment sets the port and whose file sets the host.\<close>

definition liveStore :: Viper where
  "liveStore = viper_New\<lparr>env := [''HTTP_PORT'' \<mapsto> ''9090''],
                           config := [''HTTP_HOST'' \<mapsto> ''localhost'']\<rparr>"

definition failingBuilder :: configsBuilder where
  "failingBuilder = Identity (Postgres (HTTP NewConfigsBuilder))"

definition httpBundle :: Configs where
  "httpBundle =
     \<lparr>AppConfigs = Some [], OTLPConfigs = Some [],
      Custom = \<lparr>env = [''GO_ENV'' \<mapsto> ''development''],
                config = [''HTTP_HOST'' \<mapsto> ''localhost''],
                defaults = [''HTTP_PORT'' \<mapsto> ''8080'']\<rparr>,
      Logger = Some ''noop'',
      HTTPConfigs = Some [Some (StringVal ''localhost''), Some (StringVal ''8080'')],
      PostgresConfigs = None, IdentityConfigs = None, MQTTConfigs = None,
      RabbitMQConfigs = None, AWSConfigs = None, DynamoDBConfigs = None\<rparr>"

section \<open>The Default Injector: what it registers\<close>

text \<open>
  The loop of \<open>loadStructDefaults\<close> over the field indices never panics; on a struct
  it is the fold of the loop body over the fields in declaration order, which registers
  the declared pairs one after the other.
\<close>

lemma loadField_declares:
  "loadField v f = (case declares f of None \<Rightarrow> v | Some (k, d) \<Rightarrow> SetDefault v k d)"
  by (simp add: loadField_def declares_def split: option.splits)

lemma loadLoop_struct:
  "loadLoop v (StructOf fs) i = Some (fold (\<lambda>f v. loadField v f) (drop i fs) v)"
proof (induction v "StructOf fs" i rule: loadLoop.induct)
  case (1 v i)
  show ?case
  proof (cases "i < length fs")
    case True
    then have d: "drop i fs = fs ! i # drop (Suc i) fs"
      by (simp add: Cons_nth_drop_Suc)
    from True have "loadLoop v (StructOf fs) i = loadLoop (loadField v (fs ! i)) (StructOf fs) (Suc i)"
      by (subst loadLoop.simps) simp
    also have "\<dots> = Some (fold (\<lambda>f v. loadField v f) (drop (Suc i) fs) (loadField v (fs ! i)))"
      using True by (intro "1.hyps"[of "length fs" "fs ! i"]) simp_all
    finally show ?thesis by (simp add: d)
  next
    case False
    then show ?thesis by (subst loadLoop.simps) simp
  qed
qed

lemma fold_loadField_register:
  "fold (\<lambda>f v. loadField v f) fs v = register (registered fs) v"
  by (induction fs arbitrary: v)
     (auto simp: register_def registered_def map_filter_simps loadField_declares split: option.splits)

lemma register_layers:
  "register kds v = v\<lparr>defaults := defaults v ++ map_of (rev kds)\<rparr>"
proof (induction kds arbitrary: v)
  case Nil
  show ?case by (simp add: register_def)
next
  case (Cons kd kds)
  obtain k d where kd: "kd = (k, d)" by (cases kd)
  have "register (kd # kds) v = register kds (SetDefault v k d)"
    by (simp add: register_def kd)
  also have "\<dots> = (SetDefault v k d)\<lparr>defaults := defaults (SetDefault v k d) ++ map_of (rev kds)\<rparr>"
    by (rule Cons.IH)
  also have "\<dots> = v\<lparr>defaults := defaults v ++ map_of (rev (kd # kds))\<rparr>"
    by (simp add: SetDefault_def kd map_add_def fun_eq_iff split: option.splits)
  finally show ?case .
qed

lemma loadStructDefaults_ptr_struct:
  "loadStructDefaults v (PointerTo (StructOf fs)) = Some (register (registered fs) v)"
  by (simp add: loadStructDefaults_def loadLoop_struct fold_loadField_register)

lemma loadStructDefaults_struct:
  "loadStructDefaults v (StructOf fs) = Some (register (registered fs) v)"
  by (simp add: loadStructDefaults_def loadLoop_struct fold_loadField_register)

lemma loadStructDefaults_other:
  assumes "\<And>fs. x \<noteq> StructOf fs" and "\<And>fs. x \<noteq> PointerTo (StructOf fs)"
  shows "loadStructDefaults v x = Some v"
proof (cases x)
  case (PointerTo y)
  with assms(2) have "\<And>fs. y \<noteq> StructOf fs" by blast
  then have "Kind_of y \<noteq> Struct" by (cases y) auto
  with PointerTo show ?thesis by (simp add: loadStructDefaults_def)
next
  case (StructOf fs)
  with assms(1) show ?thesis by blast
qed (simp_all add: loadStructDefaults_def)

lemma loadStructDefaults_total: "\<exists>v'. loadStructDefaults v x = Some v'"
proof (cases "(\<exists>fs. x = StructOf fs) \<or> (\<exists>fs. x = PointerTo (StructOf fs))")
  case True
  then consider fs where "x = StructOf fs" | fs where "x = PointerTo (StructOf fs)" by blast
  then show ?thesis
  proof cases
    case 1
    then show ?thesis by (simp only: loadStructDefaults_struct) blast
  next
    case 2
    then show ?thesis by (simp only: loadStructDefaults_ptr_struct) blast
  qed
next
  case False
  then have "loadStructDefaults v x = Some v"
    by (intro loadStructDefaults_other) blast+
  then show ?thesis by blast
qed

lemma register_twice: "register kds (register kds v) = register kds v"
proof -
  have "defaults v ++ map_of (rev kds) ++ map_of (rev kds) = defaults v ++ map_of (rev kds)"
    by (simp add: fun_eq_iff map_add_def split: option.splits)
  then show ?thesis by (simp add: register_layers)
qed

text \<open>
  C2. For every struct schema passed by pointer, \<open>loadStructDefaults\<close> registers a pair
  (mapping key, default value) in the store exactly for the fields that declare both a
  non-empty default annotation and a non-empty mapping-key annotation, in declaration
  order: the store after the call is the store before it with the defaults layer
  overridden by these pairs, and the live-environment and file layers untouched. A field
  that misses either annotation declares nothing and registers nothing.
\<close>

theorem loadStructDefaults_registers:
  "loadStructDefaults v (PointerTo (StructOf fs)) = Some (register (registered fs) v) \<and>
   env (register (registered fs) v) = env v \<and>
   config (register (registered fs) v) = config v \<and>
   defaults (register (registered fs) v) = defaults v ++ map_of (rev (registered fs))"
  by (simp add: loadStructDefaults_ptr_struct) (simp add: register_layers)

text \<open>
  C6. For every store and every value handed to \<open>loadStructDefaults\<close>, the call returns,
  and a second call on the resulting store leaves that store as it is: injection is
  idempotent.
\<close>

theorem loadStructDefaults_idempotent:
  "\<exists>v1. loadStructDefaults v x = Some v1 \<and> loadStructDefaults v1 x = Some v1"
proof (cases "(\<exists>fs. x = StructOf fs) \<or> (\<exists>fs. x = PointerTo (StructOf fs))")
  case True
  then consider fs where "x = StructOf fs" | fs where "x = PointerTo (StructOf fs)" by blast
  then show ?thesis
  proof cases
    case 1
    then show ?thesis by (simp add: loadStructDefaults_struct register_twice)
  next
    case 2
    then show ?thesis by (simp add: loadStructDefaults_ptr_struct register_twice)
  qed
next
  case False
  then have "loadStructDefaults v x = Some v"
    by (intro loadStructDefaults_other) blast+
  then show ?thesis by simp
qed

text \<open>
  C8. For every input that is neither a struct nor a pointer to a struct,
  \<open>loadStructDefaults\<close> returns normally and leaves the store unchanged.
\<close>

theorem loadStructDefaults_noop:
  assumes "\<forall>fs. x \<noteq> StructOf fs" and "\<forall>fs. x \<noteq> PointerTo (StructOf fs)"
  shows "loadStructDefaults v x = Some v"
  using assms by (intro loadStructDefaults_other) blast+

text \<open>
  The hypotheses hold for a pointer to a pointer to a struct: the store stays as it is.
\<close>

theorem loadStructDefaults_noop_witness:
  "(\<forall>fs. PointerTo (PointerTo (StructOf sharedKeySchema)) \<noteq> StructOf fs) \<and>
   (\<forall>fs. PointerTo (PointerTo (StructOf sharedKeySchema)) \<noteq> PointerTo (StructOf fs)) \<and>
   loadStructDefaults liveStore (PointerTo (PointerTo (StructOf sharedKeySchema))) = Some liveStore"
  using loadStructDefaults_noop[of "PointerTo (PointerTo (StructOf sharedKeySchema))" liveStore]
  by simp

section \<open>Injection followed by deserialization\<close>

lemma Unmarshal_fields:
  "Unmarshal dec v fs = Inr inst \<Longrightarrow>
     length inst = length fs \<and> (\<forall>i < length fs. decodeField dec v (fs ! i) = Inr (inst ! i))"
proof (induction fs arbitrary: inst)
  case Nil
  then show ?case by simp
next
  case (Cons f fs)
  from Cons.prems obtain x xs where
    x: "decodeField dec v f = Inr x" and xs: "Unmarshal dec v fs = Inr xs" and inst: "inst = x # xs"
    by (auto split: sum.splits)
  from Cons.IH[OF xs] have len: "length xs = length fs"
    and nth: "\<And>i. i < length fs \<Longrightarrow> decodeField dec v (fs ! i) = Inr (xs ! i)"
    by simp_all
  show ?case
  proof (intro conjI allI impI)
    show "length inst = length (f # fs)" by (simp add: inst len)
  next
    fix i assume "i < length (f # fs)"
    then show "decodeField dec v ((f # fs) ! i) = Inr (inst ! i)"
      by (cases i) (simp_all add: inst x nth)
  qed
qed

lemma declares_tags:
  "declares f = Some (k, d) \<Longrightarrow>
     Lookup (Tag f) ''mapstructure'' = Some k \<and> k \<noteq> '''' \<and>
     Lookup (Tag f) ''default'' = Some d \<and> d \<noteq> ''''"
  by (auto simp: declares_def split: option.splits if_splits)

lemma explicit_register: "explicit (register kds v) = explicit v"
  by (simp add: register_layers explicit_def fun_eq_iff split: option.splits)

lemma Get_register:
  "Get (register kds v) k =
     (case explicit v k of Some x \<Rightarrow> Some x
      | None \<Rightarrow> (case map_of (rev kds) k of Some d \<Rightarrow> Some d | None \<Rightarrow> defaults v k))"
  by (simp add: Get_def explicit_register)
     (simp add: register_layers map_add_def split: option.splits)

lemma registered_shared: "registered sharedKeySchema = [(''ADDR'', ''localhost''), (''ADDR'', ''0.0.0.0'')]"
  by (simp add: registered_def sharedKeySchema_def map_filter_simps declares_def Lookup_def)

text \<open>
  C1, as amended. For every schema and every store, running \<open>loadStructDefaults\<close> and
  then deserializing the store yields, for each field carrying both a mapping key and a
  default annotation, what the field's decoder makes of the live-environment or file
  value when the store has one for that key, and otherwise of the declared default,
  provided that the default registered last for that key is the field's own (no later
  field of the schema declares the same mapping key with another default).
\<close>

theorem defaults_yield:
  assumes i: "i < length fs"
    and decl: "declares (fs ! i) = Some (k, d)"
    and last: "map_of (rev (registered fs)) k = Some d"
    and inj: "loadStructDefaults v (PointerTo (StructOf fs)) = Some v'"
    and un: "Unmarshal dec v' fs = Inr inst"
  shows "i < length inst \<and>
         dec (fs ! i) (Some (case explicit v k of Some x \<Rightarrow> x | None \<Rightarrow> d)) = Inr (inst ! i)"
proof -
  from inj have v': "v' = register (registered fs) v"
    by (simp add: loadStructDefaults_ptr_struct)
  from Unmarshal_fields[OF un] i have len: "i < length inst"
    and df: "decodeField dec v' (fs ! i) = Inr (inst ! i)" by simp_all
  from declares_tags[OF decl] have "decodeField dec v' (fs ! i) = dec (fs ! i) (Get v' k)"
    by (simp add: decodeField_def)
  moreover have "Get v' k = Some (case explicit v k of Some x \<Rightarrow> x | None \<Rightarrow> d)"
    by (simp add: v' Get_register last split: option.splits)
  ultimately show ?thesis using len df by simp
qed

text \<open>
  The hypotheses hold for the port of the HTTP schema on a store whose live environment
  sets \<open>HTTP_PORT\<close>: the field gets the live value \<open>9090\<close>, not its default.
\<close>

theorem defaults_yield_witness:
  "1 < length (demoSchemas DHTTP) \<and>
   declares (demoSchemas DHTTP ! 1) = Some (''HTTP_PORT'', ''8080'') \<and>
   map_of (rev (registered (demoSchemas DHTTP))) ''HTTP_PORT'' = Some ''8080'' \<and>
   loadStructDefaults liveStore (PointerTo (StructOf (demoSchemas DHTTP))) =
     Some (SetDefault liveStore ''HTTP_PORT'' ''8080'') \<and>
   Unmarshal requiredText (SetDefault liveStore ''HTTP_PORT'' ''8080'') (demoSchemas DHTTP) =
     Inr [Some (StringVal ''localhost''), Some (StringVal ''9090'')] \<and>
   explicit liveStore ''HTTP_PORT'' = Some ''9090'' \<and>
   requiredText (demoSchemas DHTTP ! 1) (Some ''9090'') = Inr (Some (StringVal ''9090''))"
proof -
  have 1: "1 < length (demoSchemas DHTTP)" by simp
  have 2: "declares (demoSchemas DHTTP ! 1) = Some (''HTTP_PORT'', ''8080'')"
    by (simp add: declares_def Lookup_def)
  have r: "registered (demoSchemas DHTTP) = [(''HTTP_PORT'', ''8080'')]"
    by (simp add: registered_def declares_def Lookup_def)
  have 3: "map_of (rev (registered (demoSchemas DHTTP))) ''HTTP_PORT'' = Some ''8080''"
    unfolding r by simp
  have 4: "loadStructDefaults liveStore (PointerTo (StructOf (demoSchemas DHTTP))) =
     Some (SetDefault liveStore ''HTTP_PORT'' ''8080'')"
    unfolding loadStructDefaults_ptr_struct r by (simp add: register_def)
  have 5: "Unmarshal requiredText (SetDefault liveStore ''HTTP_PORT'' ''8080'') (demoSchemas DHTTP) =
     Inr [Some (StringVal ''localhost''), Some (StringVal ''9090'')]"
    by (simp add: decodeField_def Lookup_def Get_def explicit_def SetDefault_def liveStore_def
          viper_New_def requiredText_def)
  have 6: "explicit liveStore ''HTTP_PORT'' = Some ''9090''"
    by (simp add: explicit_def liveStore_def viper_New_def)
  from defaults_yield[OF 1 2 3 4 5]
  have 7: "requiredText (demoSchemas DHTTP ! 1) (Some ''9090'') = Inr (Some (StringVal ''9090''))"
    by (simp add: 6)
  show ?thesis by (intro conjI) (fact 1 2 3 4 5 6 7)+
qed

text \<open>
  C1 as stated fails for a schema whose fields share a mapping key: on the empty store
  the first field of \<open>sharedKeySchema\<close> declares the default \<open>localhost\<close> for \<open>ADDR\<close>,
  the store has no explicit value for \<open>ADDR\<close>, and the field is yet deserialized to
  \<open>0.0.0.0\<close>, the default the second field registers over it.
\<close>

theorem defaults_yield_shared_key:
  "declares (sharedKeySchema ! 0) = Some (''ADDR'', ''localhost'') \<and>
   explicit viper_New ''ADDR'' = None \<and>
   (case loadStructDefaults viper_New (PointerTo (StructOf sharedKeySchema)) of
      None \<Rightarrow> None
    | Some v' \<Rightarrow> Some (Unmarshal textDecoder v' sharedKeySchema)) =
   Some (Inr [Some (StringVal ''0.0.0.0''), Some (StringVal ''0.0.0.0'')])"
  by (simp add: loadStructDefaults_ptr_struct registered_shared Get_register decodeField_def)
     (simp add: sharedKeySchema_def declares_def Lookup_def explicit_def viper_New_def
        decodeField_def Get_register textDecoder_def)

section \<open>The trace of Build\<close>

lemma steps_append [simp]: "steps (xs @ ys) = steps xs @ steps ys"
  by (simp add: steps_def)

lemma steps_Nil [simp]: "steps [] = []"
  by (simp add: steps_def)

lemma steps_Cons: "steps (x # xs) = step_of x @ steps xs"
  by (simp add: steps_def)

lemma steps_logs: "list_all is_log logs \<Longrightarrow> steps logs = []"
  by (induction logs) (auto simp: steps_Cons elim: is_log.elims)

lemma clean_append [simp]: "clean (xs @ ys) \<longleftrightarrow> clean xs \<and> clean ys"
  by (simp add: clean_def)

lemma clean_Nil [simp]: "clean []"
  by (simp add: clean_def)

lemma clean_Cons: "clean (x # xs) \<longleftrightarrow> error_of x = None \<and> \<not> is_log x \<and> clean xs"
  by (simp add: clean_def)

lemma traced_Next:
  "tr = tr0 @ new \<Longrightarrow> clean new \<Longrightarrow> steps new = P \<Longrightarrow> traced tr0 P (Next x tr)"
  by (auto simp: traced_def)

lemma traced_Fail:
  "tr = tr0 @ new @ ev # logs \<Longrightarrow> clean new \<Longrightarrow> error_of ev = Some e \<Longrightarrow>
   list_all is_log logs \<Longrightarrow> prefix (steps (new @ [ev])) P \<Longrightarrow> traced tr0 P (Fail e tr)"
  unfolding traced_def by (simp only: Flow.case) blast

lemma traced_Panic:
  "tr = tr0 @ new @ [ev] \<Longrightarrow> clean new \<Longrightarrow> is_install ev \<Longrightarrow>
   prefix (steps (new @ [ev])) P \<Longrightarrow> traced tr0 P (Panic tr)"
  unfolding traced_def by (simp only: Flow.case) blast

lemma traced_return: "traced tr [] (Next x tr)"
  by (rule traced_Next[where new = "[]"]) simp_all

lemma traced_andThen:
  assumes f: "traced tr0 P1 f"
    and g: "\<And>x tr. f = Next x tr \<Longrightarrow> traced tr P2 (g x tr)"
  shows "traced tr0 (P1 @ P2) (andThen f g)"
proof (cases f)
  case (Next x tr)
  with f obtain new where tr: "tr = tr0 @ new" and cl: "clean new" and st: "steps new = P1"
    by (auto simp: traced_def)
  from g[OF Next] have gt: "traced tr P2 (g x tr)" .
  have eq: "andThen f g = g x tr" by (simp add: Next)
  show ?thesis
  proof (cases "g x tr")
    case (Next y tr')
    with gt obtain new' where "tr' = tr @ new'" "clean new'" "steps new' = P2"
      by (auto simp: traced_def)
    then have "traced tr0 (P1 @ P2) (Next y tr')"
      using tr cl st by (intro traced_Next[where new = "new @ new'"]) simp_all
    then show ?thesis by (simp add: eq Next)
  next
    case (Fail e tr')
    with gt obtain new' ev logs where "tr' = tr @ new' @ ev # logs" "clean new'"
      "error_of ev = Some e" "list_all is_log logs" "prefix (steps (new' @ [ev])) P2"
      by (auto simp: traced_def)
    then have "traced tr0 (P1 @ P2) (Fail e tr')"
      using tr cl st
      by (intro traced_Fail[where new = "new @ new'" and ev = ev and logs = logs]) simp_all
    then show ?thesis by (simp add: eq Fail)
  next
    case (Panic tr')
    with gt obtain new' ev where "tr' = tr @ new' @ [ev]" "clean new'" "is_install ev"
      "prefix (steps (new' @ [ev])) P2"
      by (auto simp: traced_def)
    then have "traced tr0 (P1 @ P2) (Panic tr')"
      using tr cl st
      by (intro traced_Panic[where new = "new @ new'" and ev = ev]) simp_all
    then show ?thesis by (simp add: eq Panic)
  qed
next
  case (Fail e tr)
  with f obtain new ev logs where "tr = tr0 @ new @ ev # logs" "clean new"
      "error_of ev = Some e" "list_all is_log logs" "prefix (steps (new @ [ev])) P1"
    by (auto simp: traced_def)
  then have "traced tr0 (P1 @ P2) (Fail e tr)"
    by (intro traced_Fail[where new = new and ev = ev and logs = logs]) (simp_all add: prefix_prefix)
  then show ?thesis by (simp add: Fail)
next
  case (Panic tr)
  with f obtain new ev where "tr = tr0 @ new @ [ev]" "clean new" "is_install ev"
      "prefix (steps (new @ [ev])) P1"
    by (auto simp: traced_def)
  then have "traced tr0 (P1 @ P2) (Panic tr)"
    by (intro traced_Panic[where new = new and ev = ev]) (simp_all add: prefix_prefix)
  then show ?thesis by (simp add: Panic)
qed

lemma traced_andThen_return:
  assumes "traced tr0 P f"
  shows "traced tr0 P (andThen f (\<lambda>x tr. Next (h x) tr))"
proof -
  have "traced tr0 (P @ []) (andThen f (\<lambda>x tr. Next (h x) tr))"
    using assms by (rule traced_andThen) (rule traced_return)
  then show ?thesis by simp
qed

lemma andThen_Next:
  "andThen f g = Next y tr' \<longleftrightarrow> (\<exists>x tr. f = Next x tr \<and> g x tr = Next y tr')"
  by (cases f) auto

subsection \<open>Loading the base configuration\<close>

lemma fill_eq:
  "fill w d v tr =
     (case Unmarshal (Decode w) (register (registered (Schemas w d)) v) (Schemas w d) of
        Inl e \<Rightarrow> Fail e (tr @ [LoadDefaults d, UnmarshalInto d (Some e)])
      | Inr inst \<Rightarrow> Next (register (registered (Schemas w d)) v, inst)
                       (tr @ [LoadDefaults d, UnmarshalInto d None]))"
  by (simp add: fill_def loadStructDefaults_ptr_struct)

lemma traced_setupViper: "traced tr [SReadInConfig] (setupViper w tr)"
proof (cases "ReadConfigFile w (EnvFile w (os_Getenv w ''GO_ENV''))")
  case (Inl e)
  then have "setupViper w tr = Fail e (tr @ [] @ ReadInConfig (Some e) # [])"
    by (simp add: setupViper_def)
  then show ?thesis
    by (simp only:) (rule traced_Fail[OF refl], simp_all add: steps_Cons)
next
  case (Inr kv)
  then have "\<exists>v. setupViper w tr = Next v (tr @ [ReadInConfig None])"
    by (simp add: setupViper_def)
  then show ?thesis
    by (auto intro!: traced_Next[OF refl] simp: steps_Cons clean_Cons)
qed

lemma traced_fill: "traced tr [SLoadDefaults d, SUnmarshal d] (fill w d v tr)"
proof (cases "Unmarshal (Decode w) (register (registered (Schemas w d)) v) (Schemas w d)")
  case (Inl e)
  then have "fill w d v tr = Fail e (tr @ [LoadDefaults d] @ UnmarshalInto d (Some e) # [])"
    by (simp add: fill_eq)
  then show ?thesis
    by (simp only:) (rule traced_Fail[OF refl], simp_all add: steps_Cons clean_Cons)
next
  case (Inr inst)
  then have "\<exists>x. fill w d v tr = Next x (tr @ [LoadDefaults d, UnmarshalInto d None])"
    by (simp add: fill_eq)
  then show ?thesis
    by (auto intro!: traced_Next[OF refl] simp: steps_Cons clean_Cons)
qed

lemma traced_newConfigs:
  "traced tr [SReadInConfig, SLoadDefaults DApp, SUnmarshal DApp, SLoadDefaults DOTLP, SUnmarshal DOTLP]
     (newConfigs w tr)"
proof -
  have "traced tr ([SReadInConfig] @ [SLoadDefaults DApp, SUnmarshal DApp] @
          [SLoadDefaults DOTLP, SUnmarshal DOTLP]) (newConfigs w tr)"
    unfolding newConfigs_def split_def
    by (intro traced_andThen traced_setupViper traced_fill traced_andThen_return)
  then show ?thesis by simp
qed

lemma newConfigs_Next:
  assumes "newConfigs w tr = Next cfgs tr'"
  shows "Logger cfgs = None \<and> AppConfigs cfgs \<noteq> None \<and> OTLPConfigs cfgs \<noteq> None \<and>
         HTTPConfigs cfgs = None \<and> PostgresConfigs cfgs = None \<and> IdentityConfigs cfgs = None \<and>
         MQTTConfigs cfgs = None \<and> RabbitMQConfigs cfgs = None \<and> AWSConfigs cfgs = None \<and>
         DynamoDBConfigs cfgs = None"
  using assms unfolding newConfigs_def
  by (auto simp: andThen_Next split_def)

subsection \<open>Installing observability\<close>

lemma traced_logAndFail:
  assumes "error_of ev = Some e" "\<not> is_log ev" "step_of ev = [s]"
  shows "traced tr [s] (logAndFail (Some l) msg e (tr @ [ev]))"
proof -
  have eq: "logAndFail (Some l) msg e (tr @ [ev]) = Fail e (tr @ [] @ ev # [LoggerError l msg e])"
    by (simp add: logAndFail_def)
  show ?thesis unfolding eq
    by (rule traced_Fail[OF refl]) (simp_all add: steps_Cons assms)
qed

lemma logAndFail_not_Next: "logAndFail lo msg e tr \<noteq> Next x tr'"
  by (simp add: logAndFail_def split: option.splits)

lemma traced_installLogger:
  assumes ev: "\<And>r. is_install (ev r)" "\<And>r. error_of (ev r) = r" "\<And>r. step_of (ev r) = [s]"
  shows "traced tr [s] (installLogger r ev msg cfgs tr)"
proof (cases r)
  case (Installed l)
  have nl: "\<not> is_log (ev None)" using ev(1)[of None] by (cases "ev None") simp_all
  from Installed have "installLogger r ev msg cfgs tr = Next (cfgs\<lparr>Logger := Some l\<rparr>) (tr @ [ev None])"
    by (simp add: installLogger_def)
  then show ?thesis using ev nl
    by (simp only:) (rule traced_Next[OF refl], simp_all add: steps_Cons clean_Cons)
next
  case (InstallFailed lo e)
  have nl: "\<not> is_log (ev (Some e))" using ev(1)[of "Some e"] by (cases "ev (Some e)") simp_all
  show ?thesis
  proof (cases lo)
    case None
    with InstallFailed have "installLogger r ev msg cfgs tr = Panic (tr @ [] @ [ev (Some e)])"
      by (simp add: installLogger_def logAndFail_def)
    then show ?thesis using ev
      by (simp only:) (rule traced_Panic[OF refl], simp_all add: steps_Cons)
  next
    case (Some l)
    with InstallFailed have "installLogger r ev msg cfgs tr = logAndFail (Some l) msg e (tr @ [ev (Some e)])"
      by (simp add: installLogger_def)
    then show ?thesis using ev nl by (simp only:) (rule traced_logAndFail, simp_all)
  qed
qed

lemma installLogger_Next:
  "installLogger r ev msg cfgs tr = Next cfgs' tr' \<Longrightarrow> \<exists>l. cfgs' = cfgs\<lparr>Logger := Some l\<rparr>"
  by (cases r) (auto simp: installLogger_def logAndFail_def split: option.splits)

lemma traced_tracing:
  assumes "Logger cfgs = Some l"
  shows "traced tr [SInstallOtlpTracing]
     (case OtlpTracingInstall w cfgs of
        Some e \<Rightarrow> logAndFail (Logger cfgs) ''failed to install OTLP tracing'' e
                    (tr @ [InstallOtlpTracing (Some e)])
      | None \<Rightarrow> Next cfgs (tr @ [InstallOtlpTracing None]))"
proof (cases "OtlpTracingInstall w cfgs")
  case None
  then show ?thesis
    by (simp only: option.case) (rule traced_Next[OF refl], simp_all add: steps_Cons clean_Cons)
next
  case (Some e)
  then show ?thesis using assms
    by (simp only: option.case) (rule traced_logAndFail, simp_all)
qed

lemma traced_setupObservability:
  "traced tr (observabilitySteps b) (setupObservability w b cfgs tr)"
proof (cases "otlp b")
  case True
  have "traced tr ([SInstallOtlpLogging] @ [SInstallOtlpTracing])
          (andThen (installLogger (OtlpLoggingInstall w cfgs) InstallOtlpLogging
                   ''failed to install OTLP logger'' cfgs tr) (\<lambda>cfgs tr.
          (case OtlpTracingInstall w cfgs of
             Some e \<Rightarrow> logAndFail (Logger cfgs) ''failed to install OTLP tracing'' e
                         (tr @ [InstallOtlpTracing (Some e)])
           | None \<Rightarrow> Next cfgs (tr @ [InstallOtlpTracing None]))))"
  proof (rule traced_andThen)
    show "traced tr [SInstallOtlpLogging] (installLogger (OtlpLoggingInstall w cfgs)
            InstallOtlpLogging ''failed to install OTLP logger'' cfgs tr)"
      by (rule traced_installLogger) simp_all
  next
    fix x tr1
    assume "installLogger (OtlpLoggingInstall w cfgs) InstallOtlpLogging
              ''failed to install OTLP logger'' cfgs tr = Next x tr1"
    from installLogger_Next[OF this] obtain l where "Logger x = Some l" by auto
    then show "traced tr1 [SInstallOtlpTracing]
       (case OtlpTracingInstall w x of
          Some e \<Rightarrow> logAndFail (Logger x) ''failed to install OTLP tracing'' e
                      (tr1 @ [InstallOtlpTracing (Some e)])
        | None \<Rightarrow> Next x (tr1 @ [InstallOtlpTracing None]))"
      by (rule traced_tracing)
  qed
  then show ?thesis using True by (simp add: observabilitySteps_def setupObservability_def)
next
  case False
  then show ?thesis
    by (simp add: setupObservability_def observabilitySteps_def traced_installLogger)
qed

lemma setupObservability_Next:
  assumes "setupObservability w b cfgs tr = Next cfgs' tr'"
  shows "\<exists>l. cfgs' = cfgs\<lparr>Logger := Some l\<rparr>"
proof (cases "otlp b")
  case True
  with assms show ?thesis
    by (auto simp: setupObservability_def andThen_Next logAndFail_not_Next
             dest!: installLogger_Next split: option.splits)
next
  case False
  with assms show ?thesis
    by (auto simp: setupObservability_def dest!: installLogger_Next)
qed

text \<open>
  What \<open>setupObservability\<close> does with the error of a logger installer: with a handle
  it logs through the handle and returns the error, with a nil handle it panics.
\<close>

lemma setupObservability_noop_error:
  assumes "\<not> otlp b" and "NoopLoggingInstall w cfgs = InstallFailed (Some l) e"
  shows "setupObservability w b cfgs tr =
           Fail e (tr @ [InstallNoopLogging (Some e), LoggerError l ''failed to install Noop logger'' e])"
  using assms by (simp add: setupObservability_def installLogger_def logAndFail_def)

lemma setupObservability_noop_nil:
  assumes "\<not> otlp b" and "NoopLoggingInstall w cfgs = InstallFailed None e"
  shows "setupObservability w b cfgs tr = Panic (tr @ [InstallNoopLogging (Some e)])"
  using assms by (simp add: setupObservability_def installLogger_def logAndFail_def)

lemma setupObservability_otlp_error:
  assumes "otlp b" and "OtlpLoggingInstall w cfgs = InstallFailed (Some l) e"
  shows "setupObservability w b cfgs tr =
           Fail e (tr @ [InstallOtlpLogging (Some e), LoggerError l ''failed to install OTLP logger'' e])"
  using assms by (simp add: setupObservability_def installLogger_def logAndFail_def)

lemma setupObservability_otlp_nil:
  assumes "otlp b" and "OtlpLoggingInstall w cfgs = InstallFailed None e"
  shows "setupObservability w b cfgs tr = Panic (tr @ [InstallOtlpLogging (Some e)])"
  using assms by (simp add: setupObservability_def installLogger_def logAndFail_def)

lemma setupObservability_tracing_error:
  assumes "otlp b" and "OtlpLoggingInstall w cfgs = Installed l"
    and "OtlpTracingInstall w (cfgs\<lparr>Logger := Some l\<rparr>) = Some e"
  shows "setupObservability w b cfgs tr =
           Fail e (tr @ [InstallOtlpLogging None, InstallOtlpTracing (Some e),
                         LoggerError l ''failed to install OTLP tracing'' e])"
  using assms by (simp add: setupObservability_def installLogger_def logAndFail_def)

subsection \<open>The optional domains\<close>

lemma Custom_attach [simp]: "Custom (attach d x cfgs) = Custom cfgs"
  by (cases d) simp_all

lemma Logger_attach [simp]: "Logger (attach d x cfgs) = Logger cfgs"
  by (cases d) simp_all

lemma bundleField_attach:
  "bundleField d' (attach d x cfgs) = (if d' = d then x else bundleField d' cfgs)"
  by (cases d; cases d') simp_all

lemma bundleField_Custom [simp]: "bundleField d (cfgs\<lparr>Custom := v\<rparr>) = bundleField d cfgs"
  by (cases d) simp_all

lemma traced_loadDomain:
  assumes "Logger cfgs = Some l"
  shows "traced tr [SLoadDefaults d, SUnmarshal d] (loadDomain w d cfgs tr)"
proof (cases "Unmarshal (Decode w) (register (registered (Schemas w d)) (Custom cfgs)) (Schemas w d)")
  case (Inl e)
  then have "loadDomain w d cfgs tr = Fail e (tr @ [LoadDefaults d] @ UnmarshalInto d (Some e) # [LoggerError l (message d) e])"
    using assms by (simp add: loadDomain_def fill_eq logAndFail_def)
  then show ?thesis
    by (simp only:) (rule traced_Fail[OF refl], simp_all add: steps_Cons clean_Cons)
next
  case (Inr inst)
  then have "\<exists>x. loadDomain w d cfgs tr = Next x (tr @ [LoadDefaults d, UnmarshalInto d None])"
    by (simp add: loadDomain_def fill_eq)
  then show ?thesis
    by (auto intro!: traced_Next[OF refl] simp: steps_Cons clean_Cons)
qed

lemma loadDomain_Next:
  assumes "loadDomain w d cfgs tr = Next cfgs' tr'"
  shows "Logger cfgs' = Logger cfgs \<and>
         (\<forall>d'. bundleField d' cfgs' \<noteq> None \<longleftrightarrow> d' = d \<or> bundleField d' cfgs \<noteq> None)"
  using assms
  by (auto simp: loadDomain_def Let_def fill_eq bundleField_attach logAndFail_not_Next
           split: sum.splits if_splits)

lemma traced_loadDomains:
  assumes "Logger cfgs = Some l"
  shows "traced tr (domainSteps b ds) (loadDomains w b ds cfgs tr)"
  using assms
proof (induction ds arbitrary: cfgs tr)
  case Nil
  show ?case by (simp add: domainSteps_def traced_return)
next
  case (Cons d ds)
  show ?case
  proof (cases "enabled b d")
    case True
    have "traced tr ([SLoadDefaults d, SUnmarshal d] @ domainSteps b ds)
            (andThen (loadDomain w d cfgs tr) (loadDomains w b ds))"
    proof (rule traced_andThen[OF traced_loadDomain[OF Cons.prems]])
      fix x tr1 assume "loadDomain w d cfgs tr = Next x tr1"
      from loadDomain_Next[OF this] Cons.prems have "Logger x = Some l" by simp
      then show "traced tr1 (domainSteps b ds) (loadDomains w b ds x tr1)" by (rule Cons.IH)
    qed
    then show ?thesis using True by (simp add: domainSteps_def)
  next
    case False
    then show ?thesis using Cons.IH[OF Cons.prems] by (simp add: domainSteps_def)
  qed
qed

lemma loadDomains_Next:
  assumes "loadDomains w b ds cfgs tr = Next cfgs' tr'"
  shows "Logger cfgs' = Logger cfgs \<and>
         (\<forall>d'. bundleField d' cfgs' \<noteq> None \<longleftrightarrow>
                 (d' \<in> set ds \<and> enabled b d') \<or> bundleField d' cfgs \<noteq> None)"
  using assms
proof (induction ds arbitrary: cfgs tr)
  case Nil
  then show ?case by simp
next
  case (Cons d ds)
  show ?case
  proof (cases "enabled b d")
    case True
    with Cons.prems obtain x tr1 where 1: "loadDomain w d cfgs tr = Next x tr1"
      and 2: "loadDomains w b ds x tr1 = Next cfgs' tr'"
      by (auto simp: andThen_Next)
    from loadDomain_Next[OF 1] Cons.IH[OF 2] True show ?thesis by auto
  next
    case False
    with Cons.prems have "loadDomains w b ds cfgs tr = Next cfgs' tr'" by simp
    from Cons.IH[OF this] False show ?thesis by auto
  qed
qed

subsection \<open>The whole of Build\<close>

lemma Build_finish: "Build w b = finish b (chain w b)"
  by (simp add: Build_def finish_def chain_def optionalOrder_def)

lemma traced_chain: "traced [] (plan b) (chain w b)"
  unfolding plan_def chain_def
proof (intro traced_andThen traced_newConfigs traced_setupObservability)
  fix x tr xa tra
  assume "setupObservability w b x tr = Next xa tra"
  from setupObservability_Next[OF this] obtain l where "Logger xa = Some l" by auto
  then show "traced tra (domainSteps b optionalOrder) (loadDomains w b optionalOrder xa tra)"
    by (rule traced_loadDomains)
qed

lemma chain_Next:
  assumes "chain w b = Next cfgs tr"
  shows "AppConfigs cfgs \<noteq> None \<and> OTLPConfigs cfgs \<noteq> None \<and> Logger cfgs \<noteq> None \<and>
         (\<forall>d \<in> set optionalOrder. bundleField d cfgs \<noteq> None \<longleftrightarrow> enabled b d)"
proof -
  from assms obtain c1 t1 c2 t2 where 1: "newConfigs w [] = Next c1 t1"
    and 2: "setupObservability w b c1 t1 = Next c2 t2"
    and 3: "loadDomains w b optionalOrder c2 t2 = Next cfgs tr"
    by (auto simp: chain_def andThen_Next)
  from setupObservability_Next[OF 2] obtain l where c2: "c2 = c1\<lparr>Logger := Some l\<rparr>" by auto
  note n = newConfigs_Next[OF 1]
  from loadDomains_Next[OF 3] have lg: "Logger cfgs = Logger c2"
    and fld: "\<And>d. bundleField d cfgs \<noteq> None \<longleftrightarrow>
                 (d \<in> set optionalOrder \<and> enabled b d) \<or> bundleField d c2 \<noteq> None"
    by simp_all
  have "AppConfigs cfgs \<noteq> None" using fld[of DApp] n c2 by simp
  moreover have "OTLPConfigs cfgs \<noteq> None" using fld[of DOTLP] n c2 by simp
  moreover have "Logger cfgs \<noteq> None" using lg c2 by simp
  moreover have "\<forall>d \<in> set optionalOrder. bundleField d c2 = None"
    using n c2 by (simp add: optionalOrder_def)
  then have "\<forall>d \<in> set optionalOrder. bundleField d cfgs \<noteq> None \<longleftrightarrow> enabled b d"
    using fld by simp
  ultimately show ?thesis by simp
qed

lemma builder_Build: "builder (Build w b) = b"
  by (simp add: Build_finish finish_def split: Flow.splits)

subsection \<open>The earlier Build\<close>

lemma traced_unmarshalField: "traced tr [SUnmarshal d] (unmarshalField w v d tr)"
proof (cases "UnmarshalField w v d")
  case None
  then have "unmarshalField w v d tr = Next () (tr @ [UnmarshalInto d None])"
    by (simp add: unmarshalField_def)
  then show ?thesis
    by (simp only:) (rule traced_Next[OF refl], simp_all add: steps_Cons clean_Cons)
next
  case (Some e)
  then have "unmarshalField w v d tr = Fail e (tr @ [] @ UnmarshalInto d (Some e) # [])"
    by (simp add: unmarshalField_def)
  then show ?thesis
    by (simp only:) (rule traced_Fail[OF refl], simp_all add: steps_Cons)
qed

lemma traced_legacyBlock: "traced tr [SUnmarshal d] (legacyBlock w v logger d tr)"
proof (cases "UnmarshalField w v d")
  case None
  then have "legacyBlock w v logger d tr = Next () (tr @ [UnmarshalInto d None])"
    by (simp add: legacyBlock_def)
  then show ?thesis
    by (simp only:) (rule traced_Next[OF refl], simp_all add: steps_Cons clean_Cons)
next
  case (Some e)
  then have "legacyBlock w v logger d tr =
               Fail e (tr @ [] @ UnmarshalInto d (Some e) # [LoggerError logger (message d) e])"
    by (simp add: legacyBlock_def)
  then show ?thesis
    by (simp only:) (rule traced_Fail[OF refl], simp_all add: steps_Cons)
qed

lemma traced_newDefaultLogger: "traced tr [SNewDefaultLogger] (newDefaultLogger w cfgs tr)"
proof (cases "NewDefaultLogger w cfgs")
  case (Inl e)
  then have "newDefaultLogger w cfgs tr = Fail e (tr @ [] @ DefaultLogger (Some e) # [])"
    by (simp add: newDefaultLogger_def)
  then show ?thesis
    by (simp only:) (rule traced_Fail[OF refl], simp_all add: steps_Cons)
next
  case (Inr lv)
  show ?thesis
  proof (cases lv)
    case (ZapLogger l)
    with Inr have "\<exists>x. newDefaultLogger w cfgs tr = Next x (tr @ [DefaultLogger None])"
      by (simp add: newDefaultLogger_def)
    then show ?thesis
      by (auto intro!: traced_Next[OF refl] simp: steps_Cons clean_Cons)
  next
    case OtherLogger
    with Inr have "newDefaultLogger w cfgs tr = Panic (tr @ [] @ [DefaultLogger None])"
      by (simp add: newDefaultLogger_def)
    then show ?thesis
      by (simp only:) (rule traced_Panic[OF refl], simp_all add: steps_Cons)
  qed
qed

lemma traced_legacyDomains:
  "traced tr (legacySteps b ds) (legacyDomains w b v logger cfgs ds tr)"
proof (induction ds arbitrary: tr)
  case Nil
  show ?case by (simp add: legacySteps_def traced_return)
next
  case (Cons d ds)
  show ?case
  proof (cases "enabled b d")
    case True
    have "traced tr ([SUnmarshal d] @ legacySteps b ds)
            (andThen (legacyBlock w v logger d tr) (\<lambda>u. legacyDomains w b v logger cfgs ds))"
      by (rule traced_andThen[OF traced_legacyBlock]) (rule Cons.IH)
    then show ?thesis using True by (simp add: legacySteps_def)
  next
    case False
    then show ?thesis using Cons.IH by (simp add: legacySteps_def)
  qed
qed

lemma Build_legacy_finish: "Build_legacy w b = finish b (legacyChain w b)"
  by (simp add: Build_legacy_def finish_def legacyChain_def legacyOrder_def)

lemma traced_legacyChain:
  "traced [] ([SReadInConfig] @ [SUnmarshal DApp] @ [SNewDefaultLogger] @ legacySteps b legacyOrder)
     (legacyChain w b)"
  unfolding legacyChain_def split_def
  by (intro traced_andThen traced_setupViper traced_unmarshalField traced_newDefaultLogger
        traced_legacyDomains)

lemma builder_Build_legacy: "builder (Build_legacy w b) = b"
  by (simp add: Build_legacy_finish finish_def split: Flow.splits)

subsection \<open>A failed deserialization ends the run\<close>

lemma traced_short_circuit:
  assumes tr: "traced [] P flow"
    and ev: "UnmarshalInto D (Some e) \<in> set (events (finish b flow))"
  shows "outcome (finish b flow) = Returned None (Some e) \<and>
         (\<exists>pre post. events (finish b flow) = pre @ UnmarshalInto D (Some e) # post \<and>
                      list_all is_log post)"
proof (cases flow)
  case (Next cfgs t)
  with tr have "clean t" by (auto simp: traced_def)
  moreover from ev Next have "UnmarshalInto D (Some e) \<in> set t"
    by (simp add: finish_def)
  ultimately show ?thesis by (auto simp: clean_def list_all_iff)
next
  case (Fail e' t)
  with tr obtain new x logs where t: "t = new @ x # logs"
    and cl: "clean new" and x: "error_of x = Some e'" and lg: "list_all is_log logs"
    by (auto simp: traced_def)
  from ev Fail have "UnmarshalInto D (Some e) \<in> set t"
    by (simp add: finish_def)
  with t cl lg have "x = UnmarshalInto D (Some e)"
    by (auto simp: clean_def list_all_iff)
  with x have "e' = e" by simp
  with Fail t lg \<open>x = UnmarshalInto D (Some e)\<close> show ?thesis
    by (auto simp: finish_def)
next
  case (Panic t)
  with tr obtain new x where t: "t = new @ [x]"
    and cl: "clean new" and x: "is_install x"
    by (auto simp: traced_def)
  from ev Panic have "UnmarshalInto D (Some e) \<in> set t"
    by (simp add: finish_def)
  with t cl x show ?thesis by (auto simp: clean_def list_all_iff)
qed

subsection \<open>Two runs in the demonstration world\<close>

lemmas demo_simps = Build_def newConfigs_def setupViper_def fill_eq os_Getenv_def demoWorld_def
  viper_New_def setupObservability_def installLogger_def logAndFail_def loadDomain_def Let_def
  registered_def declares_def Lookup_def register_def SetDefault_def
  decodeField_def Get_def explicit_def requiredText_def zeroInstance_def
  HTTP_def Postgres_def Identity_def NewConfigsBuilder_def

lemma demo_http_run:
  "Build demoWorld (HTTP NewConfigsBuilder) =
     \<lparr>builder = HTTP NewConfigsBuilder,
      events = [ReadInConfig None, LoadDefaults DApp, UnmarshalInto DApp None,
                LoadDefaults DOTLP, UnmarshalInto DOTLP None, InstallNoopLogging None,
                LoadDefaults DHTTP, UnmarshalInto DHTTP None],
      outcome = Returned (Some httpBundle) None\<rparr>"
  by (simp add: demo_simps httpBundle_def)

lemma demo_failing_run:
  "Build demoWorld failingBuilder =
     \<lparr>builder = failingBuilder,
      events = [ReadInConfig None, LoadDefaults DApp, UnmarshalInto DApp None,
                LoadDefaults DOTLP, UnmarshalInto DOTLP None, InstallNoopLogging None,
                LoadDefaults DHTTP, UnmarshalInto DHTTP None, LoadDefaults DPostgres,
                UnmarshalInto DPostgres (Some (Err ''missing Host'')),
                LoggerError ''noop'' ''failed to unmarshal Postgres configs'' (Err ''missing Host'')],
      outcome = Returned None (Some (Err ''missing Host''))\<rparr>"
  by (simp add: demo_simps failingBuilder_def)

lemma demo_legacy_run:
  "Build_legacy demoWorld failingBuilder =
     \<lparr>builder = failingBuilder,
      events = [ReadInConfig None, UnmarshalInto DApp None, DefaultLogger None,
                UnmarshalInto DHTTP None,
                UnmarshalInto DPostgres (Some (Err ''cannot decode Postgres configs'')),
                LoggerError ''default'' ''failed to unmarshal Postgres configs''
                  (Err ''cannot decode Postgres configs'')],
      outcome = Returned None (Some (Err ''cannot decode Postgres configs''))\<rparr>"
  by (simp add: Build_legacy_def setupViper_def os_Getenv_def demoWorld_def viper_New_def
        unmarshalField_def newDefaultLogger_def legacyBlock_def failingBuilder_def
        HTTP_def Postgres_def Identity_def NewConfigsBuilder_def)

section \<open>Properties of Build\<close>

text \<open>
  C3. For every builder state and world, if the deserialization of a domain \<open>D\<close> fails
  inside \<open>Build\<close> with the error \<open>e\<close>, then \<open>Build\<close> returns a nil bundle together with
  \<open>e\<close>, and after the failed call \<open>Build\<close> only logs: no later domain is deserialized or
  attached. This holds of \<open>Build\<close> and of the earlier \<open>Build\<close> alike.
\<close>

theorem Build_short_circuit:
  "(UnmarshalInto D (Some e) \<in> set (events (Build w b)) \<longrightarrow>
      outcome (Build w b) = Returned None (Some e) \<and>
      (\<exists>pre post. events (Build w b) = pre @ UnmarshalInto D (Some e) # post \<and>
                   list_all is_log post)) \<and>
   (UnmarshalInto D (Some e) \<in> set (events (Build_legacy w b)) \<longrightarrow>
      outcome (Build_legacy w b) = Returned None (Some e) \<and>
      (\<exists>pre post. events (Build_legacy w b) = pre @ UnmarshalInto D (Some e) # post \<and>
                   list_all is_log post))"
  unfolding Build_finish Build_legacy_finish
  using traced_short_circuit[OF traced_chain] traced_short_circuit[OF traced_legacyChain]
  by blast

text \<open>
  In the demonstration world with HTTP, Postgres and Identity enabled, the Postgres
  schema fails for want of \<open>SQL_DB_HOST\<close>: \<open>Build\<close> returns that error and never
  touches Identity. So does the earlier \<open>Build\<close>, with the error of its own \<open>Unmarshal\<close>.
\<close>

theorem Build_short_circuit_witness:
  "UnmarshalInto DPostgres (Some (Err ''missing Host'')) \<in> set (events (Build demoWorld failingBuilder)) \<and>
   identity failingBuilder \<and>
   outcome (Build demoWorld failingBuilder) = Returned None (Some (Err ''missing Host'')) \<and>
   LoadDefaults DIdentity \<notin> set (events (Build demoWorld failingBuilder)) \<and>
   UnmarshalInto DPostgres (Some (Err ''cannot decode Postgres configs''))
     \<in> set (events (Build_legacy demoWorld failingBuilder)) \<and>
   outcome (Build_legacy demoWorld failingBuilder) =
     Returned None (Some (Err ''cannot decode Postgres configs'')) \<and>
   UnmarshalInto DIdentity None \<notin> set (events (Build_legacy demoWorld failingBuilder))"
proof -
  have h: "UnmarshalInto DPostgres (Some (Err ''missing Host'')) \<in> set (events (Build demoWorld failingBuilder))"
    by (simp add: demo_failing_run)
  have h': "UnmarshalInto DPostgres (Some (Err ''cannot decode Postgres configs''))
     \<in> set (events (Build_legacy demoWorld failingBuilder))"
    by (simp add: demo_legacy_run)
  from Build_short_circuit[of DPostgres "Err ''missing Host''" demoWorld failingBuilder] h
  have 1: "outcome (Build demoWorld failingBuilder) = Returned None (Some (Err ''missing Host''))"
    by blast
  from Build_short_circuit[of DPostgres "Err ''cannot decode Postgres configs''"
         demoWorld failingBuilder] h'
  have 2: "outcome (Build_legacy demoWorld failingBuilder) =
     Returned None (Some (Err ''cannot decode Postgres configs''))"
    by blast
  have 3: "identity failingBuilder" by (simp add: failingBuilder_def Identity_def)
  have 4: "LoadDefaults DIdentity \<notin> set (events (Build demoWorld failingBuilder))"
    by (simp add: demo_failing_run)
  have 5: "UnmarshalInto DIdentity None \<notin> set (events (Build_legacy demoWorld failingBuilder))"
    by (simp add: demo_legacy_run)
  show ?thesis by (intro conjI) (fact h h' 1 2 3 4 5)+
qed

text \<open>
  C4. For every set of flags, a successful \<open>Build\<close> returns a bundle in which the field
  of each of the seven optional domains is populated exactly when the flag of the domain
  is set; the two mandatory schemas are always populated and the error is nil.
\<close>

theorem Build_populates_enabled:
  assumes "outcome (Build w b) = Returned (Some cfgs) e"
  shows "(HTTPConfigs cfgs \<noteq> None) = http b \<and>
         (PostgresConfigs cfgs \<noteq> None) = postgres b \<and>
         (IdentityConfigs cfgs \<noteq> None) = identity b \<and>
         (MQTTConfigs cfgs \<noteq> None) = mqtt b \<and>
         (RabbitMQConfigs cfgs \<noteq> None) = rabbitmq b \<and>
         (AWSConfigs cfgs \<noteq> None) = aws b \<and>
         (DynamoDBConfigs cfgs \<noteq> None) = dynamoDB b \<and>
         AppConfigs cfgs \<noteq> None \<and> OTLPConfigs cfgs \<noteq> None \<and> e = None"
proof -
  from assms obtain tr where "chain w b = Next cfgs tr" and "e = None"
    by (auto simp: Build_finish finish_def split: Flow.splits)
  from chain_Next[OF this(1)] \<open>e = None\<close> show ?thesis
    by (simp add: optionalOrder_def)
qed

text \<open>
  With HTTP alone enabled, the bundle has the HTTP block, with the host of the file and
  the default port, and no other optional block.
\<close>

theorem Build_populates_enabled_witness:
  "outcome (Build demoWorld (HTTP NewConfigsBuilder)) = Returned (Some httpBundle) None \<and>
   http (HTTP NewConfigsBuilder) \<and> HTTPConfigs httpBundle \<noteq> None \<and>
   \<not> postgres (HTTP NewConfigsBuilder) \<and> PostgresConfigs httpBundle = None"
proof -
  have h: "outcome (Build demoWorld (HTTP NewConfigsBuilder)) = Returned (Some httpBundle) None"
    by (simp add: demo_http_run)
  from Build_populates_enabled[OF h] h show ?thesis
    by (simp add: HTTP_def NewConfigsBuilder_def)
qed

text \<open>
  C5. The steps of every run of \<open>Build\<close> are an initial segment of \<open>plan b\<close>: the file is
  read, the base application and observability schemas are loaded and logging is
  installed before any optional domain is touched, and the optional domains follow in
  the order HTTP, Postgres, Identity, MQTT, RabbitMQ, AWS, DynamoDB. A run that returns
  a bundle has made all the steps of the plan.
\<close>

theorem Build_order:
  "prefix (steps (events (Build w b))) (plan b) \<and>
   (outcome (Build w b) = Returned (Some cfgs) e \<longrightarrow> steps (events (Build w b)) = plan b)"
proof (cases "chain w b")
  case (Next c tr)
  with traced_chain[of b w] have "steps tr = plan b" by (auto simp: traced_def)
  with Next show ?thesis by (simp add: Build_finish finish_def)
next
  case (Fail e' tr)
  with traced_chain[of b w] obtain new ev logs where "tr = new @ ev # logs"
    "list_all is_log logs" "prefix (steps (new @ [ev])) (plan b)"
    by (auto simp: traced_def)
  then have "prefix (steps tr) (plan b)" by (simp add: steps_Cons steps_logs)
  with Fail show ?thesis by (simp add: Build_finish finish_def)
next
  case (Panic tr)
  with traced_chain[of b w] have "prefix (steps tr) (plan b)" by (auto simp: traced_def)
  with Panic show ?thesis by (simp add: Build_finish finish_def)
qed

text \<open>
  The successful run with HTTP alone enabled makes the eight steps of its plan.
\<close>

theorem Build_order_witness:
  "outcome (Build demoWorld (HTTP NewConfigsBuilder)) = Returned (Some httpBundle) None \<and>
   steps (events (Build demoWorld (HTTP NewConfigsBuilder))) =
     [SReadInConfig, SLoadDefaults DApp, SUnmarshal DApp, SLoadDefaults DOTLP, SUnmarshal DOTLP,
      SInstallNoopLogging, SLoadDefaults DHTTP, SUnmarshal DHTTP] \<and>
   plan (HTTP NewConfigsBuilder) =
     [SReadInConfig, SLoadDefaults DApp, SUnmarshal DApp, SLoadDefaults DOTLP, SUnmarshal DOTLP,
      SInstallNoopLogging, SLoadDefaults DHTTP, SUnmarshal DHTTP]"
proof -
  have h: "outcome (Build demoWorld (HTTP NewConfigsBuilder)) = Returned (Some httpBundle) None"
    by (simp add: demo_http_run)
  have p: "plan (HTTP NewConfigsBuilder) =
     [SReadInConfig, SLoadDefaults DApp, SUnmarshal DApp, SLoadDefaults DOTLP, SUnmarshal DOTLP,
      SInstallNoopLogging, SLoadDefaults DHTTP, SUnmarshal DHTTP]"
    by (simp add: plan_def observabilitySteps_def domainSteps_def optionalOrder_def HTTP_def NewConfigsBuilder_def)
  from Build_order[of demoWorld "HTTP NewConfigsBuilder" httpBundle None] h p show ?thesis
    by simp
qed

text \<open>
  C7. When the no-op installer returns an error together with a nil logger, \<open>Build\<close>
  calls \<open>Error\<close> on the nil logger it has just assigned to the bundle: it panics, and
  neither logs the error nor returns it.
\<close>

theorem Build_panics_on_nil_logger:
  "Build nilLoggerWorld NewConfigsBuilder =
     \<lparr>builder = NewConfigsBuilder,
      events = [ReadInConfig None, LoadDefaults DApp, UnmarshalInto DApp None,
                LoadDefaults DOTLP, UnmarshalInto DOTLP None,
                InstallNoopLogging (Some (Err ''no logger''))],
      outcome = Panicked\<rparr>"
  by (simp add: demo_simps nilLoggerWorld_def)

section \<open>The builder across operations\<close>

lemma ErrSlot_apply_op: "ErrSlot (apply_op op b) = ErrSlot b"
  by (cases op)
     (simp_all add: HTTP_def Otlp_def Postgres_def Identity_def MQTT_def RabbitMQ_def AWS_def
        DynamoDB_def builder_Build builder_Build_legacy)

lemmas enable_defs = HTTP_def Otlp_def Postgres_def Identity_def MQTT_def RabbitMQ_def AWS_def
  DynamoDB_def

lemma flags_apply_op:
  "http (apply_op op b) = (http b \<or> op = CallHTTP)"
  "otlp (apply_op op b) = (otlp b \<or> op = CallOtlp)"
  "postgres (apply_op op b) = (postgres b \<or> op = CallPostgres)"
  "identity (apply_op op b) = (identity b \<or> op = CallIdentity)"
  "mqtt (apply_op op b) = (mqtt b \<or> op = CallMQTT)"
  "rabbitmq (apply_op op b) = (rabbitmq b \<or> op = CallRabbitMQ)"
  "aws (apply_op op b) = (aws b \<or> op = CallAWS)"
  "dynamoDB (apply_op op b) = (dynamoDB b \<or> op = CallDynamoDB)"
  by (cases op; simp add: enable_defs builder_Build builder_Build_legacy)+

lemma flags_fold:
  "http (fold apply_op ops b) = (http b \<or> CallHTTP \<in> set ops)"
  "otlp (fold apply_op ops b) = (otlp b \<or> CallOtlp \<in> set ops)"
  "postgres (fold apply_op ops b) = (postgres b \<or> CallPostgres \<in> set ops)"
  "identity (fold apply_op ops b) = (identity b \<or> CallIdentity \<in> set ops)"
  "mqtt (fold apply_op ops b) = (mqtt b \<or> CallMQTT \<in> set ops)"
  "rabbitmq (fold apply_op ops b) = (rabbitmq b \<or> CallRabbitMQ \<in> set ops)"
  "aws (fold apply_op ops b) = (aws b \<or> CallAWS \<in> set ops)"
  "dynamoDB (fold apply_op ops b) = (dynamoDB b \<or> CallDynamoDB \<in> set ops)"
  by (induction ops arbitrary: b; auto simp: flags_apply_op)+

text \<open>
  C9. Every enable method sets its own flag to true, leaves every other field of the
  builder as it is and returns the builder; and after any sequence of operations, both
  versions of \<open>Build\<close> included, a flag is true exactly when it was true before or its
  enable method is among the operations: no operation resets a flag.
\<close>

theorem enable_methods:
  "HTTP b = b\<lparr>http := True\<rparr> \<and> Otlp b = b\<lparr>otlp := True\<rparr> \<and>
   Postgres b = b\<lparr>postgres := True\<rparr> \<and> Identity b = b\<lparr>identity := True\<rparr> \<and>
   MQTT b = b\<lparr>mqtt := True\<rparr> \<and> RabbitMQ b = b\<lparr>rabbitmq := True\<rparr> \<and>
   AWS b = b\<lparr>aws := True\<rparr> \<and> DynamoDB b = b\<lparr>dynamoDB := True\<rparr> \<and>
   http (run_ops ops b) = (http b \<or> CallHTTP \<in> set ops) \<and>
   otlp (run_ops ops b) = (otlp b \<or> CallOtlp \<in> set ops) \<and>
   postgres (run_ops ops b) = (postgres b \<or> CallPostgres \<in> set ops) \<and>
   identity (run_ops ops b) = (identity b \<or> CallIdentity \<in> set ops) \<and>
   mqtt (run_ops ops b) = (mqtt b \<or> CallMQTT \<in> set ops) \<and>
   rabbitmq (run_ops ops b) = (rabbitmq b \<or> CallRabbitMQ \<in> set ops) \<and>
   aws (run_ops ops b) = (aws b \<or> CallAWS \<in> set ops) \<and>
   dynamoDB (run_ops ops b) = (dynamoDB b \<or> CallDynamoDB \<in> set ops)"
  by (simp add: enable_defs run_ops_def flags_fold)

text \<open>
  C10. \<open>Build\<close>, in both of its versions, leaves the builder as it found it, whether it
  returns a bundle, returns an error or panics; the \<open>Err\<close> field is nil at construction
  and no sequence of operations writes it.
\<close>

theorem Build_preserves_builder:
  "builder (Build w b) = b \<and> builder (Build_legacy w b) = b \<and>
   ErrSlot NewConfigsBuilder = None \<and> ErrSlot (run_ops ops b) = ErrSlot b"
proof -
  have "ErrSlot (fold apply_op ops b) = ErrSlot b"
    by (induction ops arbitrary: b) (simp_all add: ErrSlot_apply_op)
  then show ?thesis
    by (simp add: builder_Build builder_Build_legacy run_ops_def NewConfigsBuilder_def)
qed

end
